theory Spec2Isabelle
  imports Main "HOL-Library.Word"
begin

section \<open>Machine integers of the terminal core\<close>

text \<open>
  \<open>COORD\<close> fields and the scrollback capacity are 16-bit signed (\<open>SHORT\<close>); scroll offset
  and the indices returned by the accessors are \<open>int\<close>. Values are kept in \<open>int\<close> and every
  conversion the source makes into a \<open>short\<close> is written out: the implicit conversion wraps,
  \<open>base::saturated_cast\<close> clamps, \<open>gsl::narrow\<close> throws. An exception that leaves a
  \<open>noexcept\<close> function ends the process (\<open>std::terminate\<close>); that outcome is the value
  \<open>std_terminate\<close>, which no caller catches.
\<close>

datatype exn = narrowing_error | std_terminate

definition in_short :: "int \<Rightarrow> bool" where
  "in_short v \<longleftrightarrow> - 32768 \<le> v \<and> v \<le> 32767"

definition wrap_short :: "int \<Rightarrow> int" where
  "wrap_short v = (v + 32768) mod 65536 - 32768"

definition saturated_cast_short :: "int \<Rightarrow> int" where
  "saturated_cast_short v = (if v > 32767 then 32767 else if v < - 32768 then - 32768 else v)"

definition narrow_short :: "int \<Rightarrow> exn + int" where
  "narrow_short v = (if in_short v then Inr v else Inl narrowing_error)"

text \<open>
  Modelled from the spec: \<open>Utils::ClampToShortMax(value, min)\<close>, which \<open>Create\<close> uses,
  is outside \<open>Terminal.cpp\<close>. The capacity of the buffer is the viewport height plus the
  scrollback depth; the helper keeps it at or above \<open>min\<close> and at or below \<open>SHRT_MAX\<close>.
\<close>

definition ClampToShortMax :: "int \<Rightarrow> int \<Rightarrow> int" where
  "ClampToShortMax v lo = (if v < lo then lo else if v > 32767 then 32767 else v)"

type_synonym wchar = "16 word"
type_synonym wstring = "wchar list"

record COORD =
  X :: int
  Y :: int

section \<open>Viewport\<close>

text \<open>
  Modelled from the spec: the \<open>Viewport\<close> class is declared outside
  \<open>Terminal.cpp\<close>. The spec gives it as the value \<open>{top, width, height}\<close> standing for
  the rows \<open>[top, top + height)\<close>, with \<open>bottomInclusive = top + height - 1\<close> and
  \<open>bottomExclusive = top + height\<close>.
\<close>

record Viewport =
  vp_top :: int
  vp_width :: int
  vp_height :: int

definition FromDimensions :: "COORD \<Rightarrow> COORD \<Rightarrow> Viewport" where
  "FromDimensions origin dimensions =
     \<lparr>vp_top = Y origin, vp_width = X dimensions, vp_height = Y dimensions\<rparr>"

definition Dimensions :: "Viewport \<Rightarrow> COORD" where
  "Dimensions v = \<lparr>X = vp_width v, Y = vp_height v\<rparr>"

definition Top :: "Viewport \<Rightarrow> int" where
  "Top v = vp_top v"

definition Height :: "Viewport \<Rightarrow> int" where
  "Height v = vp_height v"

definition Width :: "Viewport \<Rightarrow> int" where
  "Width v = vp_width v"

definition BottomInclusive :: "Viewport \<Rightarrow> int" where
  "BottomInclusive v = vp_top v + vp_height v - 1"

definition BottomExclusive :: "Viewport \<Rightarrow> int" where
  "BottomExclusive v = vp_top v + vp_height v"

section \<open>Cell Buffer\<close>

text \<open>
  Modelled from the spec: \<open>TextBuffer\<close>, its rows and its cursor live outside
  \<open>Terminal.cpp\<close>. The spec describes an ordered, fixed-capacity sequence of rows, each an
  ordered sequence of cells (character content and attributes) with a forced-wrap flag, one
  cursor, and a cumulative scrollback count that every circular increment raises by one.
\<close>

type_synonym TextAttribute = nat

record Cell =
  glyph :: wstring
  attr :: TextAttribute

record ROW =
  cells :: "Cell list"
  wrapForced :: bool

record Cursor =
  position :: COORD
  deferDepth :: nat

record TextBuffer =
  rows :: "ROW list"
  bufWidth :: nat
  cursor :: Cursor
  currentAttributes :: TextAttribute
  scrollbackCount :: nat

definition blank_cell :: "TextAttribute \<Rightarrow> Cell" where
  "blank_cell a = \<lparr>glyph = [0x20], attr = a\<rparr>"

definition blank_row :: "nat \<Rightarrow> TextAttribute \<Rightarrow> ROW" where
  "blank_row w a = \<lparr>cells = replicate w (blank_cell a), wrapForced = False\<rparr>"

text \<open>
  Modelled from the spec: the \<open>TextBuffer\<close> constructor, a buffer of the given size
  whose rows are blank and whose cursor is at the origin. A negative dimension gives none.
\<close>

definition TextBuffer_new :: "COORD \<Rightarrow> TextAttribute \<Rightarrow> TextBuffer" where
  "TextBuffer_new bufferSize a =
     \<lparr>rows = replicate (nat (Y bufferSize)) (blank_row (nat (X bufferSize)) a),
      bufWidth = nat (X bufferSize),
      cursor = \<lparr>position = \<lparr>X = 0, Y = 0\<rparr>, deferDepth = 0\<rparr>,
      currentAttributes = a,
      scrollbackCount = 0\<rparr>"

definition GetSize :: "TextBuffer \<Rightarrow> Viewport" where
  "GetSize b =
     FromDimensions \<lparr>X = 0, Y = 0\<rparr> \<lparr>X = int (bufWidth b), Y = int (length (rows b))\<rparr>"

definition GetCurrentAttributes :: "TextBuffer \<Rightarrow> TextAttribute" where
  "GetCurrentAttributes b = currentAttributes b"

definition GetPosition :: "TextBuffer \<Rightarrow> COORD" where
  "GetPosition b = position (cursor b)"

text \<open>Modelled from the spec: the cursor is set to the position it is given.\<close>

definition SetPosition :: "COORD \<Rightarrow> TextBuffer \<Rightarrow> TextBuffer" where
  "SetPosition p b = b\<lparr>cursor := (cursor b)\<lparr>position := p\<rparr>\<rparr>"

definition StartDeferDrawing :: "TextBuffer \<Rightarrow> TextBuffer" where
  "StartDeferDrawing b = b\<lparr>cursor := (cursor b)\<lparr>deferDepth := Suc (deferDepth (cursor b))\<rparr>\<rparr>"

definition EndDeferDrawing :: "TextBuffer \<Rightarrow> TextBuffer" where
  "EndDeferDrawing b = b\<lparr>cursor := (cursor b)\<lparr>deferDepth := deferDepth (cursor b) - 1\<rparr>\<rparr>"

text \<open>
  Modelled from the spec: \<open>incrementCircularBuffer\<close> evicts the oldest row, appends a
  blank row and shifts the addressable rows down by one; the cumulative scrollback count
  grows by exactly one.
\<close>

definition IncrementCircularBuffer :: "TextBuffer \<Rightarrow> TextBuffer" where
  "IncrementCircularBuffer b =
     b\<lparr>rows := (case rows b of [] \<Rightarrow> []
                 | r # rs \<Rightarrow> rs @ [blank_row (bufWidth b) (currentAttributes b)]),
       scrollbackCount := Suc (scrollbackCount b)\<rparr>"

text \<open>
  Modelled from the spec: \<open>rowAt(offset)\<close> for marking the forced wrap. The spec names no
  behaviour for an offset outside the buffer; the model leaves the buffer as it is there.
\<close>

definition SetWrapForced :: "int \<Rightarrow> bool \<Rightarrow> TextBuffer \<Rightarrow> TextBuffer" where
  "SetWrapForced y w b =
     (if 0 \<le> y \<and> y < int (length (rows b))
      then b\<lparr>rows := (rows b)[nat y := (rows b ! nat y)\<lparr>wrapForced := w\<rparr>]\<rparr>
      else b)"

section \<open>Terminal state\<close>

text \<open>
  The fields of \<open>Terminal\<close> that the write, scroll and resize paths read or assign, named
  as in the source without the leading underscore. \<open>pfnScrollPositionChanged\<close> is whether a
  scroll-position-changed callback is registered. The calls the terminal makes to its
  collaborators are kept as a trace, oldest first: \<open>TriggerRedrawAll\<close> on the render target,
  each invocation of the scroll-position-changed callback with its three arguments, each
  \<open>LockForWriting\<close> call and the release of that lock at the end of the scope that holds it.
\<close>

datatype event = RedrawAll | ScrollPositionChanged int int int | LockedForWriting | Unlocked

record Terminal =
  mutableViewport :: Viewport
  scrollbackLines :: int
  scrollOffset :: int
  snapOnInput :: bool
  buffer :: TextBuffer
  pfnScrollPositionChanged :: bool
  events :: "event list"

text \<open>\<open>GetBufferHeight\<close> returns a \<open>short\<close>.\<close>

definition GetBufferHeight :: "Terminal \<Rightarrow> int" where
  "GetBufferHeight t = wrap_short (BottomExclusive (mutableViewport t))"

definition ViewStartIndex :: "Terminal \<Rightarrow> int" where
  "ViewStartIndex t = Top (mutableViewport t)"

definition ViewEndIndex :: "Terminal \<Rightarrow> int" where
  "ViewEndIndex t = BottomInclusive (mutableViewport t)"

definition VisibleStartIndex :: "Terminal \<Rightarrow> int" where
  "VisibleStartIndex t = max 0 (ViewStartIndex t - scrollOffset t)"

definition VisibleEndIndex :: "Terminal \<Rightarrow> int" where
  "VisibleEndIndex t = max 0 (ViewEndIndex t - scrollOffset t)"

text \<open>
  \<open>_GetVisibleViewport\<close> is \<open>noexcept\<close>: when its \<open>gsl::narrow\<close> throws, the process
  ends.
\<close>

definition GetVisibleViewport :: "Terminal \<Rightarrow> exn + Viewport" where
  "GetVisibleViewport t =
     (case narrow_short (VisibleStartIndex t) of
        Inl e \<Rightarrow> Inl std_terminate
      | Inr y \<Rightarrow> Inr (FromDimensions \<lparr>X = 0, Y = y\<rparr> (Dimensions (mutableViewport t))))"

definition GetScrollOffset :: "Terminal \<Rightarrow> int" where
  "GetScrollOffset t = VisibleStartIndex t"

text \<open>
  \<open>_NotifyScrollEvent\<close>: nothing without a registered callback; with one, the visible
  viewport is computed (which may end the process) and the callback is invoked.
\<close>

definition NotifyScrollEvent :: "Terminal \<Rightarrow> exn + Terminal" where
  "NotifyScrollEvent t =
     (if pfnScrollPositionChanged t then
        (case GetVisibleViewport t of
           Inl e \<Rightarrow> Inl e
         | Inr visible \<Rightarrow>
             Inr (t\<lparr>events := events t @
                    [ScrollPositionChanged (Top visible) (Height visible) (GetBufferHeight t)]\<rparr>))
      else Inr t)"

definition TriggerRedrawAll :: "Terminal \<Rightarrow> Terminal" where
  "TriggerRedrawAll t = t\<lparr>events := events t @ [RedrawAll]\<rparr>"

definition LockForWriting :: "Terminal \<Rightarrow> Terminal" where
  "LockForWriting t = t\<lparr>events := events t @ [LockedForWriting]\<rparr>"

definition unlock :: "Terminal \<Rightarrow> Terminal" where
  "unlock t = t\<lparr>events := events t @ [Unlocked]\<rparr>"

definition UserScrollViewport :: "int \<Rightarrow> Terminal \<Rightarrow> Terminal" where
  "UserScrollViewport viewTop t =
     (let clampedNewTop = max 0 viewTop;
          realTop = ViewStartIndex t;
          newDelta = realTop - clampedNewTop
      in TriggerRedrawAll (t\<lparr>scrollOffset := max 0 newDelta\<rparr>))"

text \<open>
  \<open>TrySnapOnInput\<close> takes the write lock inside its \<open>if\<close>; the lock is released at the
  end of that block.
\<close>

definition TrySnapOnInput :: "Terminal \<Rightarrow> exn + Terminal" where
  "TrySnapOnInput t =
     (if snapOnInput t \<and> scrollOffset t \<noteq> 0
      then (case NotifyScrollEvent ((LockForWriting t)\<lparr>scrollOffset := 0\<rparr>) of
              Inl e \<Rightarrow> Inl e
            | Inr t' \<Rightarrow> Inr (unlock t'))
      else Inr t)"

section \<open>Construction\<close>

text \<open>
  The constructor followed by \<open>Create\<close>: scroll offset 0, snap-on-input on, no callback
  registered, the mutable viewport at the origin and a buffer of the viewport height plus the
  scrollback capacity, clamped to \<open>[1, SHRT_MAX]\<close>.
\<close>

definition Create :: "COORD \<Rightarrow> int \<Rightarrow> Terminal" where
  "Create viewportSize scrollbackLines' =
     (let bufferSize = \<lparr>X = X viewportSize,
                        Y = ClampToShortMax (Y viewportSize + scrollbackLines') 1\<rparr>
      in \<lparr>mutableViewport = FromDimensions \<lparr>X = 0, Y = 0\<rparr> viewportSize,
          scrollbackLines = scrollbackLines',
          scrollOffset = 0,
          snapOnInput = True,
          buffer = TextBuffer_new bufferSize 0,
          pfnScrollPositionChanged = False,
          events = []\<rparr>)"

definition SetScrollPositionChangedCallback :: "Terminal \<Rightarrow> Terminal" where
  "SetScrollPositionChangedCallback t = t\<lparr>pfnScrollPositionChanged := True\<rparr>"

section \<open>Write path\<close>

text \<open>
  Modelled from the spec: the Cell Buffer's \<open>write\<close>. It writes as many whole character
  units of the view as fit on the cursor's row from the cursor's column on and returns the
  cells and the input units consumed; nothing is consumed when the row has no remaining
  columns. A character unit is a surrogate pair (a high surrogate followed by a low one) or
  a single code unit. The number of cells a unit occupies is not fixed by the spec and is the
  parameter \<open>cw\<close>. The cursor is not moved. With the cursor outside the rows of the buffer
  or left of column 0, which the spec does not address, nothing is written.
\<close>

definition is_high_surrogate :: "wchar \<Rightarrow> bool" where
  "is_high_surrogate w \<longleftrightarrow> 0xD800 \<le> w \<and> w \<le> 0xDBFF"

definition is_low_surrogate :: "wchar \<Rightarrow> bool" where
  "is_low_surrogate w \<longleftrightarrow> 0xDC00 \<le> w \<and> w \<le> 0xDFFF"

fun split_units :: "wstring \<Rightarrow> wstring list" where
  "split_units [] = []"
| "split_units [a] = [ [a] ]"
| "split_units (a # b # r) =
     (if is_high_surrogate a \<and> is_low_surrogate b
      then [a, b] # split_units r
      else [a] # split_units (b # r))"

fun fill_cells :: "Cell list \<Rightarrow> nat \<Rightarrow> nat \<Rightarrow> Cell \<Rightarrow> Cell list" where
  "fill_cells cs c 0 v = cs"
| "fill_cells cs c (Suc k) v = fill_cells (cs[c := v]) (Suc c) k v"

fun write_units ::
  "(wstring \<Rightarrow> nat) \<Rightarrow> nat \<Rightarrow> TextAttribute \<Rightarrow> wstring list \<Rightarrow> nat \<Rightarrow> Cell list
     \<Rightarrow> Cell list \<times> nat \<times> nat" where
  "write_units cw w a [] c cs = (cs, 0, 0)"
| "write_units cw w a (u # us) c cs =
     (if c < w \<and> c + cw u \<le> w then
        (case write_units cw w a us (c + cw u) (fill_cells cs c (cw u) \<lparr>glyph = u, attr = a\<rparr>) of
           (cs', k, n) \<Rightarrow> (cs', cw u + k, length u + n))
      else (cs, 0, 0))"

definition TextBuffer_Write ::
  "(wstring \<Rightarrow> nat) \<Rightarrow> wstring \<Rightarrow> TextAttribute \<Rightarrow> TextBuffer \<Rightarrow> TextBuffer \<times> nat \<times> nat" where
  "TextBuffer_Write cw view a b =
     (let p = GetPosition b in
      if 0 \<le> X p \<and> 0 \<le> Y p \<and> Y p < int (length (rows b)) then
        (case write_units cw (bufWidth b) a (split_units view) (nat (X p))
                (cells (rows b ! nat (Y p))) of
           (cs', k, n) \<Rightarrow>
             (b\<lparr>rows := (rows b)[nat (Y p) := (rows b ! nat (Y p))\<lparr>cells := cs'\<rparr>]\<rparr>, k, n))
      else (b, 0, 0))"

text \<open>
  \<open>_AdjustCursorPosition\<close>. \<open>cycle_buffer\<close> is its \<open>for\<close> loop, one circular increment
  and one decrement of the proposed row per round; \<open>finish_adjust\<close> is its last statement.
\<close>

fun cycle_buffer :: "nat \<Rightarrow> TextBuffer \<Rightarrow> int \<Rightarrow> TextBuffer \<times> int" where
  "cycle_buffer 0 b y = (b, y)"
| "cycle_buffer (Suc n) b y = cycle_buffer n (IncrementCircularBuffer b) (wrap_short (y - 1))"

definition finish_adjust :: "bool \<Rightarrow> Terminal \<Rightarrow> exn + Terminal" where
  "finish_adjust notifyScroll t =
     (if notifyScroll then NotifyScrollEvent (TriggerRedrawAll t) else Inr t)"

definition AdjustCursorPosition :: "COORD \<Rightarrow> Terminal \<Rightarrow> exn + Terminal" where
  "AdjustCursorPosition proposedPosition t =
     (let bufferSize = GetSize (buffer t);
          newRows = Y proposedPosition - Height bufferSize + 1;
          (b1, y1) = (if newRows > 0 then cycle_buffer (nat newRows) (buffer t) (Y proposedPosition)
                      else (buffer t, Y proposedPosition));
          notifyScroll = (newRows > 0);
          b2 = SetPosition \<lparr>X = X proposedPosition, Y = y1\<rparr> b1;
          cursorPosAfter = GetPosition b2;
          t2 = t\<lparr>buffer := b2\<rparr>
      in if Y cursorPosAfter > BottomInclusive (mutableViewport t2) then
           (let newViewTop = max 0 (Y cursorPosAfter - (Height (mutableViewport t2) - 1)) in
            if newViewTop \<noteq> Top (mutableViewport t2) then
              (case narrow_short newViewTop of
                 Inl e \<Rightarrow> Inl e
               | Inr top' \<Rightarrow>
                   finish_adjust True
                     (t2\<lparr>mutableViewport :=
                           FromDimensions \<lparr>X = 0, Y = top'\<rparr>
                             (Dimensions (mutableViewport t2))\<rparr>))
            else finish_adjust notifyScroll t2)
         else finish_adjust notifyScroll t2)"

text \<open>
  \<open>_WriteBuffer\<close>. \<open>WriteBuffer_body\<close> is one round of its loop at index \<open>i\<close>; it
  returns the index of the next round, which is \<open>i\<close> plus the input distance (the source
  adds the distance less one and the loop header adds one; after a write that consumed
  nothing the source subtracts one and the loop header adds it back).
\<close>

definition is_surrogate :: "wchar \<Rightarrow> bool" where
  "is_surrogate wch \<longleftrightarrow> 0xD800 \<le> wch \<and> wch \<le> 0xDFFF"

definition substr :: "wstring \<Rightarrow> nat \<Rightarrow> nat \<Rightarrow> wstring" where
  "substr sv i n = take n (drop i sv)"

definition WriteBuffer_view :: "wstring \<Rightarrow> nat \<Rightarrow> wstring" where
  "WriteBuffer_view sv i = substr sv i (if is_surrogate (sv ! i) then 2 else 1)"

definition WriteBuffer_body ::
  "(wstring \<Rightarrow> nat) \<Rightarrow> wstring \<Rightarrow> nat \<Rightarrow> Terminal \<Rightarrow> exn + (nat \<times> Terminal)" where
  "WriteBuffer_body cw sv i t =
     (let cursorPosBefore = GetPosition (buffer t);
          view = WriteBuffer_view sv i;
          (b', cellDistance, inputDistance) =
             TextBuffer_Write cw view (GetCurrentAttributes (buffer t)) (buffer t);
          t1 = t\<lparr>buffer := b'\<rparr>
      in if inputDistance > 0 then
           (case narrow_short (int cellDistance) of
              Inl e \<Rightarrow> Inl e
            | Inr d \<Rightarrow>
                (case AdjustCursorPosition
                        \<lparr>X = wrap_short (X cursorPosBefore + d), Y = Y cursorPosBefore\<rparr> t1 of
                   Inl e \<Rightarrow> Inl e
                 | Inr t2 \<Rightarrow> Inr (i + inputDistance, t2)))
         else
           (case AdjustCursorPosition
                   \<lparr>X = 0, Y = wrap_short (Y cursorPosBefore + 1)\<rparr>
                   (t1\<lparr>buffer := SetWrapForced (Y cursorPosBefore) True (buffer t1)\<rparr>) of
              Inl e \<Rightarrow> Inl e
            | Inr t2 \<Rightarrow> Inr (i, t2)))"

text \<open>
  The loop may run forever (a buffer without columns never takes a unit), so it runs on
  fuel, one unit per round: \<open>None\<close> is a loop that has not returned within the fuel.
\<close>

fun WriteBuffer_loop ::
  "(wstring \<Rightarrow> nat) \<Rightarrow> nat \<Rightarrow> wstring \<Rightarrow> nat \<Rightarrow> Terminal \<Rightarrow> (exn + Terminal) option" where
  "WriteBuffer_loop cw 0 sv i t = (if i < length sv then None else Some (Inr t))"
| "WriteBuffer_loop cw (Suc fuel) sv i t =
     (if i < length sv then
        (case WriteBuffer_body cw sv i t of
           Inl e \<Rightarrow> Some (Inl e)
         | Inr (i', t') \<Rightarrow> WriteBuffer_loop cw fuel sv i' t')
      else Some (Inr t))"

definition WriteBuffer ::
  "(wstring \<Rightarrow> nat) \<Rightarrow> nat \<Rightarrow> wstring \<Rightarrow> Terminal \<Rightarrow> (exn + Terminal) option" where
  "WriteBuffer cw fuel sv t =
     (case WriteBuffer_loop cw fuel sv 0 (t\<lparr>buffer := StartDeferDrawing (buffer t)\<rparr>) of
        None \<Rightarrow> None
      | Some (Inl e) \<Rightarrow> Some (Inl e)
      | Some (Inr t') \<Rightarrow> Some (Inr (t'\<lparr>buffer := EndDeferDrawing (buffer t')\<rparr>)))"

section \<open>Write entry point\<close>

text \<open>
  Modelled from the spec: the parser and its dispatcher are outside \<open>Terminal.cpp\<close>.
  \<open>Write\<close> hands the string to \<open>ProcessString\<close>, which decodes it and calls back into
  the two primitives of the core, the buffer write of a text run and the cursor adjustment.
  The decoder is the parameter \<open>ProcessString\<close>, from the string to the calls it makes.
  \<open>Write\<close> takes the write lock first and holds it until it returns.
\<close>

datatype dispatch = PrintString wstring | CursorTo COORD

fun run_dispatch ::
  "(wstring \<Rightarrow> nat) \<Rightarrow> nat \<Rightarrow> dispatch list \<Rightarrow> Terminal \<Rightarrow> (exn + Terminal) option" where
  "run_dispatch cw fuel [] t = Some (Inr t)"
| "run_dispatch cw fuel (PrintString sv # ds) t =
     (case WriteBuffer cw fuel sv t of
        Some (Inr t') \<Rightarrow> run_dispatch cw fuel ds t'
      | r \<Rightarrow> r)"
| "run_dispatch cw fuel (CursorTo p # ds) t =
     (case AdjustCursorPosition p t of
        Inl e \<Rightarrow> Some (Inl e)
      | Inr t' \<Rightarrow> run_dispatch cw fuel ds t')"

definition Write ::
  "(wstring \<Rightarrow> dispatch list) \<Rightarrow> (wstring \<Rightarrow> nat) \<Rightarrow> nat \<Rightarrow> wstring \<Rightarrow> Terminal
     \<Rightarrow> (exn + Terminal) option" where
  "Write ProcessString cw fuel stringView t =
     (case run_dispatch cw fuel (ProcessString stringView) (LockForWriting t) of
        Some (Inr t') \<Rightarrow> Some (Inr (unlock t'))
      | r \<Rightarrow> r)"

section \<open>Resize\<close>

text \<open>
  \<open>UserResize\<close>. The \<open>TextBuffer\<close> constructor and \<open>TextBuffer::Reflow\<close> are outside
  \<open>Terminal.cpp\<close> and are parameters: \<open>make_TextBuffer\<close> gives the new buffer or the
  code of the exception that \<open>CATCH_RETURN\<close> turns into the returned status, and
  \<open>Reflow\<close> gives its status, the target buffer it filled and the value it leaves in the
  scrollback-lines variable, which holds \<open>saturated_cast(Top - 1)\<close> on entry. The source
  makes no \<open>LockForWriting\<close> call in \<open>UserResize\<close>.
\<close>

datatype HRESULT = S_OK | S_FALSE | failure nat

definition FAILED :: "HRESULT \<Rightarrow> bool" where
  "FAILED hr = (case hr of failure c \<Rightarrow> True | _ \<Rightarrow> False)"

definition UserResize ::
  "(COORD \<Rightarrow> TextAttribute \<Rightarrow> nat + TextBuffer) \<Rightarrow>
   (TextBuffer \<Rightarrow> TextBuffer \<Rightarrow> Viewport \<Rightarrow> int \<Rightarrow> HRESULT \<times> TextBuffer \<times> int) \<Rightarrow>
   COORD \<Rightarrow> Terminal \<Rightarrow> exn + HRESULT \<times> Terminal" where
  "UserResize make_TextBuffer Reflow viewportSize t =
     (let oldDimensions = Dimensions (mutableViewport t) in
      if viewportSize = oldDimensions then Inr (S_FALSE, t)
      else
        (let newBufferHeight = wrap_short (Y viewportSize + scrollbackLines t);
             bufferSize = \<lparr>X = X viewportSize, Y = newBufferHeight\<rparr>;
             scrollbackLines0 = saturated_cast_short (Top (mutableViewport t) - 1)
         in case make_TextBuffer bufferSize (GetCurrentAttributes (buffer t)) of
              Inl c \<Rightarrow> Inr (failure c, t)
            | Inr newTextBuffer \<Rightarrow>
                (case Reflow (buffer t) newTextBuffer (mutableViewport t) scrollbackLines0 of
                   (hr, newTextBuffer', scrollbackLines1) \<Rightarrow>
                     if FAILED hr then Inr (hr, t)
                     else
                       (case NotifyScrollEvent
                               (t\<lparr>mutableViewport :=
                                     FromDimensions
                                       \<lparr>X = 0, Y = saturated_cast_short (scrollbackLines1 + 1)\<rparr>
                                       viewportSize,
                                   buffer := newTextBuffer',
                                   scrollOffset := 0\<rparr>) of
                          Inl e \<Rightarrow> Inl e
                        | Inr t' \<Rightarrow> Inr (S_OK, t')))))"

section \<open>Quantities the statements name\<close>

text \<open>
  The number of rows by which a proposed position lies past the last row of the buffer, the
  row that is left after one eviction per such row, and the callback invocation that
  \<open>_NotifyScrollEvent\<close> makes in a state (none without a registered callback).
\<close>

definition overflow_rows :: "COORD \<Rightarrow> Terminal \<Rightarrow> nat" where
  "overflow_rows p t = nat (Y p - int (length (rows (buffer t))) + 1)"

definition row_after :: "COORD \<Rightarrow> Terminal \<Rightarrow> int" where
  "row_after p t = Y p - int (overflow_rows p t)"

definition scroll_events :: "Terminal \<Rightarrow> event list" where
  "scroll_events t =
     (if pfnScrollPositionChanged t
      then [ScrollPositionChanged (VisibleStartIndex t) (vp_height (mutableViewport t))
              (GetBufferHeight t)]
      else [])"

text \<open>
  The state invariant of the write path: a buffer of 1 to 32767 columns and rows (its
  dimensions are \<open>short\<close>s), the cursor column in \<open>[0, width]\<close>, the cursor row in
  \<open>[0, height)\<close>, a viewport of positive height whose top is at most 32767 (it is a
  \<open>short\<close>), and a scroll offset that is not negative (every assignment of the source gives
  0 or a maximum with 0). \<open>cursor_in_buffer\<close> is its part about
  the cursor; \<open>cursor_in_claimed_range\<close> is the same with the column below the width.
\<close>

definition Terminal_ok :: "Terminal \<Rightarrow> bool" where
  "Terminal_ok t \<longleftrightarrow>
     0 < bufWidth (buffer t) \<and> bufWidth (buffer t) \<le> 32767 \<and>
     0 < length (rows (buffer t)) \<and> length (rows (buffer t)) \<le> 32767 \<and>
     0 \<le> X (GetPosition (buffer t)) \<and> X (GetPosition (buffer t)) \<le> int (bufWidth (buffer t)) \<and>
     0 \<le> Y (GetPosition (buffer t)) \<and> Y (GetPosition (buffer t)) < int (length (rows (buffer t))) \<and>
     1 \<le> vp_height (mutableViewport t) \<and>
     vp_top (mutableViewport t) \<le> 32767 \<and> 0 \<le> scrollOffset t"

definition cursor_in_buffer :: "Terminal \<Rightarrow> bool" where
  "cursor_in_buffer t \<longleftrightarrow>
     0 \<le> X (GetPosition (buffer t)) \<and> X (GetPosition (buffer t)) \<le> int (bufWidth (buffer t)) \<and>
     0 \<le> Y (GetPosition (buffer t)) \<and> Y (GetPosition (buffer t)) < int (length (rows (buffer t)))"

definition cursor_in_claimed_range :: "Terminal \<Rightarrow> bool" where
  "cursor_in_claimed_range t \<longleftrightarrow>
     0 \<le> X (GetPosition (buffer t)) \<and> X (GetPosition (buffer t)) < int (bufWidth (buffer t)) \<and>
     0 \<le> Y (GetPosition (buffer t)) \<and> Y (GetPosition (buffer t)) < int (length (rows (buffer t)))"

text \<open>
  The input distance that the Cell Buffer write returns in the round of \<open>_WriteBuffer\<close> at
  index \<open>i\<close>; successive calls of \<open>_WriteBuffer\<close>, stopping at the first that does not
  return; whether a call returned.
\<close>

definition inputDistance_at :: "(wstring \<Rightarrow> nat) \<Rightarrow> wstring \<Rightarrow> nat \<Rightarrow> Terminal \<Rightarrow> nat" where
  "inputDistance_at cw sv i t =
     snd (snd (TextBuffer_Write cw (WriteBuffer_view sv i) (GetCurrentAttributes (buffer t))
                 (buffer t)))"

fun WriteBuffer_seq ::
  "(wstring \<Rightarrow> nat) \<Rightarrow> nat \<Rightarrow> wstring list \<Rightarrow> Terminal \<Rightarrow> (exn + Terminal) option" where
  "WriteBuffer_seq cw fuel [] t = Some (Inr t)"
| "WriteBuffer_seq cw fuel (sv # svs) t =
     (case WriteBuffer cw fuel sv t of
        Some (Inr t') \<Rightarrow> WriteBuffer_seq cw fuel svs t'
      | r \<Rightarrow> r)"

definition returned :: "(exn + Terminal) option \<Rightarrow> bool" where
  "returned r = (case r of Some (Inr t') \<Rightarrow> True | _ \<Rightarrow> False)"




definition with_unit :: "wstring \<Rightarrow> nat \<Rightarrow> TextBuffer \<Rightarrow> TextBuffer" where
  "with_unit u k b =
     b\<lparr>rows := (rows b)[nat (Y (GetPosition b)) :=
        (rows b ! nat (Y (GetPosition b)))
          \<lparr>cells := fill_cells (cells (rows b ! nat (Y (GetPosition b))))
                      (nat (X (GetPosition b))) k
                      \<lparr>glyph = u, attr = GetCurrentAttributes b\<rparr>\<rparr>]\<rparr>"

text \<open>
  The buffer size that \<open>UserResize\<close> asks for and the value it puts into the scrollback-lines
  variable before the reflow.
\<close>

definition resize_bufferSize :: "COORD \<Rightarrow> Terminal \<Rightarrow> COORD" where
  "resize_bufferSize viewportSize t =
     \<lparr>X = X viewportSize, Y = wrap_short (Y viewportSize + scrollbackLines t)\<rparr>"

definition resize_depth_in :: "Terminal \<Rightarrow> int" where
  "resize_depth_in t = saturated_cast_short (Top (mutableViewport t) - 1)"


section \<open>Concrete terminals\<close>

text \<open>
  States and collaborators for the concrete instances. Every character unit takes one cell.
  The example terminal has two columns, two visible rows and three rows of scrollback, with a
  scroll callback registered; \<open>row_full_terminal\<close> is that terminal after a write of two
  characters has filled its first row; \<open>scrolled_back_terminal\<close> is it after nine characters
  and a user scroll to row 0, which leaves the view three rows above the tail. The decoder
  prints the whole string; the constructors and reflows succeed or fail.
\<close>

definition single_cell :: "wstring \<Rightarrow> nat" where
  "single_cell u = 1"

definition example_terminal :: Terminal where
  "example_terminal = SetScrollPositionChangedCallback (Create \<lparr>X = 2, Y = 2\<rparr> 3)"


definition scrolled_back_terminal :: Terminal where
  "scrolled_back_terminal =
     UserScrollViewport 0
       (case WriteBuffer single_cell 18 [0x61, 0x62, 0x63, 0x64, 0x65, 0x66, 0x67, 0x68, 0x69]
               example_terminal of
          Some (Inr t) \<Rightarrow> t | _ \<Rightarrow> example_terminal)"

definition print_text :: "wstring \<Rightarrow> dispatch list" where
  "print_text sv = [PrintString sv]"

definition make_blank :: "COORD \<Rightarrow> TextAttribute \<Rightarrow> nat + TextBuffer" where
  "make_blank bufferSize a = Inr (TextBuffer_new bufferSize a)"

definition make_fails :: "COORD \<Rightarrow> TextAttribute \<Rightarrow> nat + TextBuffer" where
  "make_fails bufferSize a = Inl 14"

definition reflow_depth :: "int \<Rightarrow> TextBuffer \<Rightarrow> TextBuffer \<Rightarrow> Viewport \<Rightarrow> int \<Rightarrow> HRESULT \<times> TextBuffer \<times> int" where
  "reflow_depth d old new v d0 = (S_OK, new, d)"

definition reflow_fails :: "TextBuffer \<Rightarrow> TextBuffer \<Rightarrow> Viewport \<Rightarrow> int \<Rightarrow> HRESULT \<times> TextBuffer \<times> int" where
  "reflow_fails old new v d0 = (failure 5, new, d0)"

section \<open>Auxiliary facts\<close>

lemma wrap_short_id: "in_short v \<Longrightarrow> wrap_short v = v"
  by (simp add: in_short_def wrap_short_def)

lemma funpow_Inc_rows_length [simp]:
  "length (rows ((IncrementCircularBuffer ^^ n) b)) = length (rows b)"
  by (induction n) (auto simp: IncrementCircularBuffer_def split: list.splits)

lemma funpow_Inc_bufWidth [simp]:
  "bufWidth ((IncrementCircularBuffer ^^ n) b) = bufWidth b"
  by (induction n) (auto simp: IncrementCircularBuffer_def)

lemma funpow_Inc_cursor [simp]:
  "cursor ((IncrementCircularBuffer ^^ n) b) = cursor b"
  by (induction n) (auto simp: IncrementCircularBuffer_def)

lemma funpow_Inc_attrs [simp]:
  "currentAttributes ((IncrementCircularBuffer ^^ n) b) = currentAttributes b"
  by (induction n) (auto simp: IncrementCircularBuffer_def)

lemma funpow_Inc_count [simp]:
  "scrollbackCount ((IncrementCircularBuffer ^^ n) b) = scrollbackCount b + n"
  by (induction n) (auto simp: IncrementCircularBuffer_def)

lemma cycle_buffer_funpow:
  "in_short y \<Longrightarrow> - 32768 \<le> y - int n \<Longrightarrow>
   cycle_buffer n b y = ((IncrementCircularBuffer ^^ n) b, y - int n)"
proof (induction n arbitrary: b y)
  case 0
  then show ?case by simp
next
  case (Suc n)
  have w: "wrap_short (y - 1) = y - 1"
    using Suc.prems by (intro wrap_short_id) (simp add: in_short_def)
  have "in_short (y - 1)" using Suc.prems by (simp add: in_short_def)
  then have "cycle_buffer n (IncrementCircularBuffer b) (y - 1) =
      ((IncrementCircularBuffer ^^ n) (IncrementCircularBuffer b), y - 1 - int n)"
    using Suc.prems by (intro Suc.IH) simp_all
  then show ?case
    by (simp add: w funpow_swap1)
qed

lemma VisibleStartIndex_short:
  "vp_top (mutableViewport t) \<le> 32767 \<Longrightarrow> 0 \<le> scrollOffset t \<Longrightarrow>
   in_short (VisibleStartIndex t)"
  by (simp add: VisibleStartIndex_def ViewStartIndex_def Top_def in_short_def max_def)

lemma NotifyScrollEvent_events:
  "vp_top (mutableViewport t) \<le> 32767 \<Longrightarrow> 0 \<le> scrollOffset t \<Longrightarrow>
   NotifyScrollEvent t = Inr (t\<lparr>events := events t @ scroll_events t\<rparr>)"
  using VisibleStartIndex_short [of t]
  by (simp add: NotifyScrollEvent_def scroll_events_def GetVisibleViewport_def narrow_short_def
      Top_def Height_def FromDimensions_def Dimensions_def)

lemma NotifyScrollEvent_frame:
  "NotifyScrollEvent t = Inr t' \<Longrightarrow>
   buffer t' = buffer t \<and> mutableViewport t' = mutableViewport t \<and>
   scrollOffset t' = scrollOffset t \<and> snapOnInput t' = snapOnInput t \<and>
   scrollbackLines t' = scrollbackLines t \<and>
   pfnScrollPositionChanged t' = pfnScrollPositionChanged t"
  by (auto simp: NotifyScrollEvent_def split: if_splits sum.splits)

lemma TriggerRedrawAll_fields [simp]:
  "buffer (TriggerRedrawAll t) = buffer t"
  "mutableViewport (TriggerRedrawAll t) = mutableViewport t"
  "scrollOffset (TriggerRedrawAll t) = scrollOffset t"
  "snapOnInput (TriggerRedrawAll t) = snapOnInput t"
  "scrollbackLines (TriggerRedrawAll t) = scrollbackLines t"
  "pfnScrollPositionChanged (TriggerRedrawAll t) = pfnScrollPositionChanged t"
  "events (TriggerRedrawAll t) = events t @ [RedrawAll]"
  by (simp_all add: TriggerRedrawAll_def)

lemma finish_adjust_frame:
  "finish_adjust n t = Inr t' \<Longrightarrow>
   buffer t' = buffer t \<and> mutableViewport t' = mutableViewport t \<and>
   scrollOffset t' = scrollOffset t \<and> snapOnInput t' = snapOnInput t \<and>
   scrollbackLines t' = scrollbackLines t \<and>
   pfnScrollPositionChanged t' = pfnScrollPositionChanged t"
  by (auto simp: finish_adjust_def dest!: NotifyScrollEvent_frame split: if_splits)

lemma scroll_events_cong:
  "mutableViewport t = mutableViewport s \<Longrightarrow> scrollOffset t = scrollOffset s \<Longrightarrow>
   pfnScrollPositionChanged t = pfnScrollPositionChanged s \<Longrightarrow> scroll_events t = scroll_events s"
  by (simp add: scroll_events_def VisibleStartIndex_def ViewStartIndex_def GetBufferHeight_def)

lemma scroll_events_update [simp]:
  "scroll_events (t\<lparr>events := es\<rparr>) = scroll_events t"
  "scroll_events (t\<lparr>buffer := b\<rparr>) = scroll_events t"
  by (rule scroll_events_cong; simp)+

lemma finish_adjust_result:
  assumes "vp_top (mutableViewport t) \<le> 32767" and "0 \<le> scrollOffset t"
  shows "finish_adjust n t =
     Inr (t\<lparr>events := events t @ (if n then RedrawAll # scroll_events t else [])\<rparr>)"
proof (cases n)
  case True
  have "NotifyScrollEvent (TriggerRedrawAll t) =
      Inr ((TriggerRedrawAll t)\<lparr>events := events (TriggerRedrawAll t) @
             scroll_events (TriggerRedrawAll t)\<rparr>)"
    using assms by (intro NotifyScrollEvent_events) simp_all
  moreover have "scroll_events (TriggerRedrawAll t) = scroll_events t"
    by (rule scroll_events_cong) simp_all
  ultimately show ?thesis
    using True by (simp add: finish_adjust_def TriggerRedrawAll_def)
next
  case False
  then show ?thesis by (simp add: finish_adjust_def)
qed

lemma FromDimensions_Dimensions:
  "FromDimensions \<lparr>X = x, Y = y\<rparr> (Dimensions v) = v\<lparr>vp_top := y\<rparr>"
  by (cases v) (simp add: FromDimensions_def Dimensions_def)

lemma AdjustCursorPosition_result:
  assumes y: "in_short (Y p)" and h: "1 \<le> vp_height (mutableViewport t)"
  shows "AdjustCursorPosition p t =
     (let n = overflow_rows p t;
          y' = Y p - int n;
          b' = SetPosition \<lparr>X = X p, Y = y'\<rparr> ((IncrementCircularBuffer ^^ n) (buffer t));
          mv = mutableViewport t
      in if y' > BottomInclusive mv
         then finish_adjust True
                (t\<lparr>buffer := b', mutableViewport := mv\<lparr>vp_top := max 0 (y' - (vp_height mv - 1))\<rparr>\<rparr>)
         else finish_adjust (0 < n) (t\<lparr>buffer := b'\<rparr>))"
proof -
  let ?H = "int (length (rows (buffer t)))"
  let ?n = "overflow_rows p t"
  have cyc: "0 < Y p - ?H + 1 \<Longrightarrow>
      cycle_buffer ?n (buffer t) (Y p) = ((IncrementCircularBuffer ^^ ?n) (buffer t), Y p - int ?n)"
    using y by (intro cycle_buffer_funpow) (auto simp: overflow_rows_def in_short_def)
  have n0: "\<not> 0 < Y p - ?H + 1 \<Longrightarrow> ?n = 0"
    by (simp add: overflow_rows_def)
  have ylim: "Y p - int ?n \<le> 32767"
    using y by (simp add: in_short_def)
  show ?thesis
  proof (cases "0 < Y p - ?H + 1")
    case True
    with cyc ylim h show ?thesis
      by (auto simp: AdjustCursorPosition_def Let_def GetSize_def Height_def FromDimensions_Dimensions
          SetPosition_def GetPosition_def BottomInclusive_def Top_def narrow_short_def in_short_def
          max_def overflow_rows_def FromDimensions_def[of "\<lparr>X = 0, Y = 0\<rparr>"])
  next
    case False
    with n0 ylim h show ?thesis
      by (auto simp: AdjustCursorPosition_def Let_def GetSize_def Height_def FromDimensions_Dimensions
          SetPosition_def GetPosition_def BottomInclusive_def Top_def narrow_short_def in_short_def
          max_def overflow_rows_def FromDimensions_def[of "\<lparr>X = 0, Y = 0\<rparr>"])
  qed
qed

lemma AdjustCursorPosition_frame:
  "AdjustCursorPosition p t = Inr t' \<Longrightarrow>
   scrollOffset t' = scrollOffset t \<and> snapOnInput t' = snapOnInput t \<and>
   pfnScrollPositionChanged t' = pfnScrollPositionChanged t"
  by (auto simp: AdjustCursorPosition_def Let_def split: if_splits sum.splits prod.splits
      dest!: finish_adjust_frame)

section \<open>Cursor adjustment\<close>

text \<open>
  C2. For a proposed position whose row is a \<open>short\<close>, in a terminal whose mutable viewport
  has a positive height and a top in \<open>[0, 32767]\<close> and whose scroll offset is not negative:
  \<open>_AdjustCursorPosition\<close> returns; the circular buffer is incremented exactly once per row
  by which the proposed row exceeds the last row of the buffer, the proposed row going down by
  one per eviction; the cursor is set to that position; when the cursor row lies below the
  bottom of the mutable viewport the top moves down to put the cursor on the bottom row, and
  otherwise the viewport stays; and the redraw request with the scroll notification (the
  callback, when one is registered, called with the visible top, the viewport height and
  \<open>GetBufferHeight()\<close>) is issued exactly when a row was evicted or the viewport moved.
\<close>

theorem AdjustCursorPosition_follows_cursor:
  assumes "in_short (Y p)"
    and "1 \<le> vp_height (mutableViewport t)"
    and "0 \<le> vp_top (mutableViewport t)"
    and "vp_top (mutableViewport t) \<le> 32767"
    and "0 \<le> scrollOffset t"
  shows "row_after p t = min (Y p) (int (length (rows (buffer t))) - 1) \<and>
    (\<exists>t'. AdjustCursorPosition p t = Inr t' \<and>
      buffer t' = SetPosition \<lparr>X = X p, Y = row_after p t\<rparr>
                    ((IncrementCircularBuffer ^^ overflow_rows p t) (buffer t)) \<and>
      scrollbackCount (buffer t') = scrollbackCount (buffer t) + overflow_rows p t \<and>
      GetPosition (buffer t') = \<lparr>X = X p, Y = row_after p t\<rparr> \<and>
      mutableViewport t' =
        (if BottomInclusive (mutableViewport t) < row_after p t
         then (mutableViewport t)\<lparr>vp_top := row_after p t - (vp_height (mutableViewport t) - 1)\<rparr>
         else mutableViewport t) \<and>
      (BottomInclusive (mutableViewport t) < row_after p t \<longrightarrow>
         BottomInclusive (mutableViewport t') = row_after p t \<and>
         vp_top (mutableViewport t) < vp_top (mutableViewport t')) \<and>
      scrollOffset t' = scrollOffset t \<and>
      pfnScrollPositionChanged t' = pfnScrollPositionChanged t \<and>
      events t' = events t @
        (if 0 < overflow_rows p t \<or> mutableViewport t' \<noteq> mutableViewport t
         then RedrawAll # scroll_events t' else []) \<and>
      (pfnScrollPositionChanged t \<longrightarrow>
         scroll_events t' =
           [ScrollPositionChanged (max 0 (vp_top (mutableViewport t') - scrollOffset t))
              (vp_height (mutableViewport t))
              (wrap_short (vp_top (mutableViewport t') + vp_height (mutableViewport t)))]))"
proof
  show "row_after p t = min (Y p) (int (length (rows (buffer t))) - 1)"
    by (simp add: row_after_def overflow_rows_def min_def)
next
  let ?n = "overflow_rows p t"
  let ?y = "row_after p t"
  let ?mv = "mutableViewport t"
  let ?b = "SetPosition \<lparr>X = X p, Y = ?y\<rparr> ((IncrementCircularBuffer ^^ ?n) (buffer t))"
  have yshort: "?y \<le> 32767"
    using assms(1) by (simp add: in_short_def row_after_def)
  have adj: "AdjustCursorPosition p t =
      (if ?y > BottomInclusive ?mv
       then finish_adjust True
              (t\<lparr>buffer := ?b, mutableViewport := ?mv\<lparr>vp_top := max 0 (?y - (vp_height ?mv - 1))\<rparr>\<rparr>)
       else finish_adjust (0 < ?n) (t\<lparr>buffer := ?b\<rparr>))"
    using assms(1,2) by (simp add: AdjustCursorPosition_result Let_def row_after_def)
  have pos: "GetPosition ?b = \<lparr>X = X p, Y = ?y\<rparr>"
    by (simp add: SetPosition_def GetPosition_def)
  have cnt: "scrollbackCount ?b = scrollbackCount (buffer t) + ?n"
    by (simp add: SetPosition_def)
  have se: "\<And>s. pfnScrollPositionChanged s \<Longrightarrow> scroll_events s =
      [ScrollPositionChanged (max 0 (vp_top (mutableViewport s) - scrollOffset s))
         (vp_height (mutableViewport s))
         (wrap_short (vp_top (mutableViewport s) + vp_height (mutableViewport s)))]"
    by (simp add: scroll_events_def VisibleStartIndex_def ViewStartIndex_def Top_def
        GetBufferHeight_def BottomExclusive_def)
  show "\<exists>t'. AdjustCursorPosition p t = Inr t' \<and>
      buffer t' = ?b \<and>
      scrollbackCount (buffer t') = scrollbackCount (buffer t) + ?n \<and>
      GetPosition (buffer t') = \<lparr>X = X p, Y = ?y\<rparr> \<and>
      mutableViewport t' =
        (if BottomInclusive ?mv < ?y then ?mv\<lparr>vp_top := ?y - (vp_height ?mv - 1)\<rparr> else ?mv) \<and>
      (BottomInclusive ?mv < ?y \<longrightarrow>
         BottomInclusive (mutableViewport t') = ?y \<and> vp_top ?mv < vp_top (mutableViewport t')) \<and>
      scrollOffset t' = scrollOffset t \<and>
      pfnScrollPositionChanged t' = pfnScrollPositionChanged t \<and>
      events t' = events t @
        (if 0 < ?n \<or> mutableViewport t' \<noteq> ?mv then RedrawAll # scroll_events t' else []) \<and>
      (pfnScrollPositionChanged t \<longrightarrow>
         scroll_events t' =
           [ScrollPositionChanged (max 0 (vp_top (mutableViewport t') - scrollOffset t))
              (vp_height ?mv)
              (wrap_short (vp_top (mutableViewport t') + vp_height ?mv))])"
  proof (cases "BottomInclusive ?mv < ?y")
    case True
    let ?top = "?y - (vp_height ?mv - 1)"
    let ?t = "t\<lparr>buffer := ?b, mutableViewport := ?mv\<lparr>vp_top := ?top\<rparr>\<rparr>"
    let ?t' = "?t\<lparr>events := events t @ RedrawAll # scroll_events ?t\<rparr>"
    from True assms have top: "max 0 ?top = ?top" "vp_top ?mv < ?top" "?top \<le> 32767"
      using yshort by (simp_all add: BottomInclusive_def)
    have res: "AdjustCursorPosition p t = Inr ?t'"
      using True top(1,3) assms(5) by (simp add: adj finish_adjust_result)
    have ne: "?mv\<lparr>vp_top := ?top\<rparr> \<noteq> ?mv"
      using top(2) by (metis Viewport.select_convs(1) Viewport.surjective Viewport.update_convs(1) less_irrefl)
    show ?thesis
      unfolding res using True top(2) ne se [of ?t]
      by (intro exI [of _ ?t']) (simp add: pos cnt BottomInclusive_def)
  next
    case False
    let ?t = "t\<lparr>buffer := ?b\<rparr>"
    let ?t' = "?t\<lparr>events := events t @ (if 0 < ?n then RedrawAll # scroll_events ?t else [])\<rparr>"
    have res: "AdjustCursorPosition p t = Inr ?t'"
      using False assms(4,5) by (simp add: adj finish_adjust_result)
    show ?thesis
      unfolding res using False se [of ?t]
      by (intro exI [of _ ?t']) (simp add: pos cnt)
  qed
qed

theorem AdjustCursorPosition_follows_cursor_witness:
  "in_short (Y \<lparr>X = 0, Y = 7\<rparr>) \<and>
   1 \<le> vp_height (mutableViewport example_terminal) \<and>
   0 \<le> vp_top (mutableViewport example_terminal) \<and>
   vp_top (mutableViewport example_terminal) \<le> 32767 \<and>
   0 \<le> scrollOffset example_terminal \<and>
   pfnScrollPositionChanged example_terminal \<and>
   (\<exists>t'. AdjustCursorPosition \<lparr>X = 0, Y = 7\<rparr> example_terminal = Inr t' \<and>
      scrollbackCount (buffer t') = 3 \<and>
      GetPosition (buffer t') = \<lparr>X = 0, Y = 4\<rparr> \<and>
      vp_top (mutableViewport t') = 3 \<and>
      events t' = [RedrawAll, ScrollPositionChanged 3 2 5])"
proof -
  let ?p = "\<lparr>X = 0, Y = 7\<rparr>"
  let ?t = example_terminal
  have h: "in_short (Y ?p)" "1 \<le> vp_height (mutableViewport ?t)"
    "0 \<le> vp_top (mutableViewport ?t)" "vp_top (mutableViewport ?t) \<le> 32767"
    "0 \<le> scrollOffset ?t"
    by code_simp+
  have v: "overflow_rows ?p ?t = 3" "row_after ?p ?t = 4"
    "BottomInclusive (mutableViewport ?t) = 1" "scrollbackCount (buffer ?t) = 0"
    "events ?t = []" "pfnScrollPositionChanged ?t"
    "vp_height (mutableViewport ?t) = 2" "scrollOffset ?t = 0" "X ?p = 0"
    "wrap_short 5 = 5"
    by code_simp+
  from AdjustCursorPosition_follows_cursor [OF h] obtain t' where t':
    "AdjustCursorPosition ?p ?t = Inr t'"
    "scrollbackCount (buffer t') = scrollbackCount (buffer ?t) + overflow_rows ?p ?t"
    "GetPosition (buffer t') = \<lparr>X = X ?p, Y = row_after ?p ?t\<rparr>"
    "mutableViewport t' =
        (if BottomInclusive (mutableViewport ?t) < row_after ?p ?t
         then (mutableViewport ?t)
                \<lparr>vp_top := row_after ?p ?t - (vp_height (mutableViewport ?t) - 1)\<rparr>
         else mutableViewport ?t)"
    "events t' = events ?t @
        (if 0 < overflow_rows ?p ?t \<or> mutableViewport t' \<noteq> mutableViewport ?t
         then RedrawAll # scroll_events t' else [])"
    "pfnScrollPositionChanged ?t \<longrightarrow>
         scroll_events t' =
           [ScrollPositionChanged (max 0 (vp_top (mutableViewport t') - scrollOffset ?t))
              (vp_height (mutableViewport ?t))
              (wrap_short (vp_top (mutableViewport t') + vp_height (mutableViewport ?t)))]"
    by blast
  have top: "vp_top (mutableViewport t') = 3"
    using t'(4) by (simp add: v)
  have "scroll_events t' = [ScrollPositionChanged 3 2 5]"
    using t'(6) v(6) by (simp add: top v)
  with t' top have "AdjustCursorPosition ?p ?t = Inr t' \<and>
      scrollbackCount (buffer t') = 3 \<and>
      GetPosition (buffer t') = \<lparr>X = 0, Y = 4\<rparr> \<and>
      vp_top (mutableViewport t') = 3 \<and>
      events t' = [RedrawAll, ScrollPositionChanged 3 2 5]"
    by (simp add: v)
  with h v(6) show ?thesis by blast
qed

section \<open>The write loop\<close>

lemma split_units_concat: "concat (split_units v) = v"
  by (induction v rule: split_units.induct) auto

lemma split_units_nonempty: "u \<in> set (split_units v) \<Longrightarrow> u \<noteq> []"
  by (induction v rule: split_units.induct) (auto split: if_splits)


lemma write_units_cells:
  "write_units cw w a us c cs = (cs', k, n) \<Longrightarrow> c \<le> w \<Longrightarrow> c + k \<le> w"
proof (induction us arbitrary: c cs cs' k n)
  case Nil
  then show ?case by simp
next
  case (Cons u us)
  show ?case
  proof (cases "c < w \<and> c + cw u \<le> w")
    case True
    obtain cs1 k1 n1 where r:
      "write_units cw w a us (c + cw u) (fill_cells cs c (cw u) \<lparr>glyph = u, attr = a\<rparr>) = (cs1, k1, n1)"
      by (metis prod_cases3)
    from Cons.IH [OF r] True have "c + cw u + k1 \<le> w" by simp
    moreover from Cons.prems(1) True r have "k = cw u + k1" by simp
    ultimately show ?thesis by simp
  next
    case False
    with Cons.prems show ?thesis by auto
  qed
qed

lemma write_units_input:
  "write_units cw w a us c cs = (cs', k, n) \<Longrightarrow> n \<le> length (concat us)"
proof (induction us arbitrary: c cs cs' k n)
  case Nil
  then show ?case by simp
next
  case (Cons u us)
  show ?case
  proof (cases "c < w \<and> c + cw u \<le> w")
    case True
    obtain cs1 k1 n1 where r:
      "write_units cw w a us (c + cw u) (fill_cells cs c (cw u) \<lparr>glyph = u, attr = a\<rparr>) = (cs1, k1, n1)"
      by (metis prod_cases3)
    from Cons.IH [OF r] have "n1 \<le> length (concat us)" .
    moreover from Cons.prems(1) True r have "n = length u + n1" by simp
    ultimately show ?thesis by simp
  next
    case False
    with Cons.prems show ?thesis by auto
  qed
qed


lemma write_units_pair:
  "write_units cw w a [u] c cs = (cs', k, n) \<Longrightarrow> n = 0 \<or> n = length u"
  by (auto split: if_splits)

lemma TextBuffer_Write_frame:
  "TextBuffer_Write cw view a b = (b', k, n) \<Longrightarrow>
   cursor b' = cursor b \<and> bufWidth b' = bufWidth b \<and> length (rows b') = length (rows b) \<and>
   currentAttributes b' = currentAttributes b \<and> scrollbackCount b' = scrollbackCount b"
  by (auto simp: TextBuffer_Write_def Let_def split: if_splits prod.splits)

lemma TextBuffer_Write_cells:
  "TextBuffer_Write cw view a b = (b', k, n) \<Longrightarrow> X (GetPosition b) \<le> int (bufWidth b) \<Longrightarrow>
   X (GetPosition b) + int k \<le> int (bufWidth b)"
  by (auto simp: TextBuffer_Write_def Let_def split: if_splits prod.splits
      dest!: write_units_cells)

lemma TextBuffer_Write_input:
  "TextBuffer_Write cw view a b = (b', k, n) \<Longrightarrow> n \<le> length view"
  by (auto simp: TextBuffer_Write_def Let_def split: if_splits prod.splits
      dest!: write_units_input simp: split_units_concat)


lemma WriteBuffer_view_bounds:
  "i < length sv \<Longrightarrow> WriteBuffer_view sv i \<noteq> [] \<and> length (WriteBuffer_view sv i) \<le> length sv - i"
  by (auto simp: WriteBuffer_view_def substr_def)

lemma AdjustCursorPosition_ok:
  assumes "in_short (Y p)" and "1 \<le> vp_height (mutableViewport t)"
    and "vp_top (mutableViewport t) \<le> 32767" and "0 \<le> scrollOffset t"
  shows "\<exists>t'. AdjustCursorPosition p t = Inr t' \<and>
     bufWidth (buffer t') = bufWidth (buffer t) \<and>
     length (rows (buffer t')) = length (rows (buffer t)) \<and>
     GetPosition (buffer t') = \<lparr>X = X p, Y = min (Y p) (int (length (rows (buffer t))) - 1)\<rparr> \<and>
     (Y p < int (length (rows (buffer t))) \<longrightarrow> rows (buffer t') = rows (buffer t)) \<and>
     vp_height (mutableViewport t') = vp_height (mutableViewport t) \<and>
     vp_top (mutableViewport t') \<le> 32767 \<and>
     scrollOffset t' = scrollOffset t \<and> snapOnInput t' = snapOnInput t \<and>
     pfnScrollPositionChanged t' = pfnScrollPositionChanged t"
proof -
  let ?n = "overflow_rows p t"
  let ?y = "Y p - int ?n"
  let ?mv = "mutableViewport t"
  let ?b = "SetPosition \<lparr>X = X p, Y = ?y\<rparr> ((IncrementCircularBuffer ^^ ?n) (buffer t))"
  have y: "?y = min (Y p) (int (length (rows (buffer t))) - 1)" "?y \<le> 32767"
    using assms(1) by (simp_all add: overflow_rows_def min_def in_short_def)
  have n0: "Y p < int (length (rows (buffer t))) \<Longrightarrow> ?n = 0"
    by (simp add: overflow_rows_def)
  have b: "bufWidth ?b = bufWidth (buffer t)" "length (rows ?b) = length (rows (buffer t))"
    "GetPosition ?b = \<lparr>X = X p, Y = ?y\<rparr>"
    "Y p < int (length (rows (buffer t))) \<longrightarrow> rows ?b = rows (buffer t)"
    using n0 by (auto simp: SetPosition_def GetPosition_def)
  show ?thesis
  proof (cases "?y > BottomInclusive ?mv")
    case True
    let ?top = "max 0 (?y - (vp_height ?mv - 1))"
    let ?t = "t\<lparr>buffer := ?b, mutableViewport := ?mv\<lparr>vp_top := ?top\<rparr>\<rparr>"
    have top: "?top \<le> 32767" using y(2) assms(2) by simp
    have "AdjustCursorPosition p t = finish_adjust True ?t"
      using True assms(1,2) by (simp add: AdjustCursorPosition_result Let_def)
    also have "\<dots> = Inr (?t\<lparr>events := events ?t @ RedrawAll # scroll_events ?t\<rparr>)"
      using top assms(4) by (simp add: finish_adjust_result)
    finally show ?thesis using b y(1) top by simp
  next
    case False
    let ?t = "t\<lparr>buffer := ?b\<rparr>"
    have "AdjustCursorPosition p t = finish_adjust (0 < ?n) ?t"
      using False assms(1,2) by (simp add: AdjustCursorPosition_result Let_def)
    also have "\<dots> = Inr (?t\<lparr>events := events ?t @
        (if 0 < ?n then RedrawAll # scroll_events ?t else [])\<rparr>)"
      using assms(3,4) by (simp add: finish_adjust_result)
    finally show ?thesis using b y(1) assms(3) by simp
  qed
qed

lemma write_units_zero:
  "write_units cw w a us c cs = (cs', k, 0) \<Longrightarrow> \<forall>u\<in>set us. u \<noteq> [] \<Longrightarrow> cs' = cs \<and> k = 0"
  by (cases us) (auto split: if_splits prod.splits)

lemma row_cells_same: "r\<lparr>cells := cells r\<rparr> = r"
  by (cases r) simp

lemma TextBuffer_Write_zero:
  assumes "TextBuffer_Write cw view a b = (b', k, 0)"
  shows "b' = b \<and> k = 0"
proof (cases "0 \<le> X (GetPosition b) \<and> 0 \<le> Y (GetPosition b) \<and>
    Y (GetPosition b) < int (length (rows b))")
  case True
  obtain cs' k' n' where w: "write_units cw (bufWidth b) a (split_units view)
      (nat (X (GetPosition b))) (cells (rows b ! nat (Y (GetPosition b)))) = (cs', k', n')"
    by (metis prod_cases3)
  with assms True have e: "n' = 0" "k' = k"
    "b' = b\<lparr>rows := (rows b)[nat (Y (GetPosition b)) :=
        (rows b ! nat (Y (GetPosition b)))\<lparr>cells := cs'\<rparr>]\<rparr>"
    by (auto simp: TextBuffer_Write_def Let_def)
  from w e(1) have "cs' = cells (rows b ! nat (Y (GetPosition b))) \<and> k' = 0"
    by (intro write_units_zero [of cw _ a "split_units view"]) (auto dest: split_units_nonempty)
  with e show ?thesis by (simp add: row_cells_same)
next
  case False
  with assms show ?thesis by (auto simp: TextBuffer_Write_def Let_def)
qed

lemma SetWrapForced_frame [simp]:
  "cursor (SetWrapForced y w b) = cursor b"
  "bufWidth (SetWrapForced y w b) = bufWidth b"
  "length (rows (SetWrapForced y w b)) = length (rows b)"
  "currentAttributes (SetWrapForced y w b) = currentAttributes b"
  "scrollbackCount (SetWrapForced y w b) = scrollbackCount b"
  by (simp_all add: SetWrapForced_def)


lemma WriteBuffer_body_zero:
  assumes "inputDistance_at cw sv i t = 0"
  shows "WriteBuffer_body cw sv i t =
     (case AdjustCursorPosition
             \<lparr>X = 0, Y = wrap_short (Y (GetPosition (buffer t)) + 1)\<rparr>
             (t\<lparr>buffer := SetWrapForced (Y (GetPosition (buffer t))) True (buffer t)\<rparr>) of
        Inl e \<Rightarrow> Inl e
      | Inr t2 \<Rightarrow> Inr (i, t2))"
proof -
  obtain b' k n where w: "TextBuffer_Write cw (WriteBuffer_view sv i)
      (GetCurrentAttributes (buffer t)) (buffer t) = (b', k, n)"
    by (metis prod_cases3)
  with assms have n: "n = 0" by (simp add: inputDistance_at_def)
  with w have "b' = buffer t" using TextBuffer_Write_zero by blast
  with w n show ?thesis by (simp add: WriteBuffer_body_def Let_def)
qed

lemma WriteBuffer_body_pos:
  assumes "TextBuffer_Write cw (WriteBuffer_view sv i)
      (GetCurrentAttributes (buffer t)) (buffer t) = (b', k, n)" and "0 < n"
  shows "WriteBuffer_body cw sv i t =
     (case narrow_short (int k) of
        Inl e \<Rightarrow> Inl e
      | Inr d \<Rightarrow>
          (case AdjustCursorPosition
                  \<lparr>X = wrap_short (X (GetPosition (buffer t)) + d), Y = Y (GetPosition (buffer t))\<rparr>
                  (t\<lparr>buffer := b'\<rparr>) of
             Inl e \<Rightarrow> Inl e
           | Inr t2 \<Rightarrow> Inr (i + n, t2)))"
  using assms by (simp add: WriteBuffer_body_def Let_def)

lemma WriteBuffer_body_ok:
  assumes ok: "Terminal_ok t" and i: "i < length sv"
  shows "\<exists>t'. WriteBuffer_body cw sv i t = Inr (i + inputDistance_at cw sv i t, t') \<and>
     Terminal_ok t' \<and>
     bufWidth (buffer t') = bufWidth (buffer t) \<and>
     length (rows (buffer t')) = length (rows (buffer t)) \<and>
     scrollOffset t' = scrollOffset t \<and> snapOnInput t' = snapOnInput t \<and>
     i + inputDistance_at cw sv i t \<le> length sv \<and>
     (inputDistance_at cw sv i t = 0 \<longrightarrow> X (GetPosition (buffer t')) = 0)"
proof -
  let ?b = "buffer t"
  let ?p = "GetPosition ?b"
  obtain b' k n where w: "TextBuffer_Write cw (WriteBuffer_view sv i)
      (GetCurrentAttributes ?b) ?b = (b', k, n)"
    by (metis prod_cases3)
  then have n: "inputDistance_at cw sv i t = n" by (simp add: inputDistance_at_def)
  note fr = TextBuffer_Write_frame [OF w]
  from ok have bounds: "0 < bufWidth ?b" "bufWidth ?b \<le> 32767" "0 < length (rows ?b)"
    "length (rows ?b) \<le> 32767" "0 \<le> X ?p" "X ?p \<le> int (bufWidth ?b)" "0 \<le> Y ?p"
    "Y ?p < int (length (rows ?b))" "1 \<le> vp_height (mutableViewport t)"
    "vp_top (mutableViewport t) \<le> 32767" "0 \<le> scrollOffset t"
    by (simp_all add: Terminal_ok_def)
  have yshort: "in_short (Y ?p)" "in_short (Y ?p + 1)"
    using bounds by (simp_all add: in_short_def)
  have le: "i + n \<le> length sv"
    using TextBuffer_Write_input [OF w] WriteBuffer_view_bounds [OF i] i by linarith
  show ?thesis
  proof (cases "0 < n")
    case True
    have kb: "X ?p + int k \<le> int (bufWidth ?b)"
      using TextBuffer_Write_cells [OF w] bounds by simp
    then have nk: "narrow_short (int k) = Inr (int k)"
      using bounds by (simp add: narrow_short_def in_short_def)
    have wk: "wrap_short (X ?p + int k) = X ?p + int k"
      using kb bounds by (intro wrap_short_id) (simp add: in_short_def)
    obtain t' where t': "AdjustCursorPosition \<lparr>X = X ?p + int k, Y = Y ?p\<rparr> (t\<lparr>buffer := b'\<rparr>) = Inr t'"
      "bufWidth (buffer t') = bufWidth b'" "length (rows (buffer t')) = length (rows b')"
      "GetPosition (buffer t') = \<lparr>X = X ?p + int k, Y = min (Y ?p) (int (length (rows b')) - 1)\<rparr>"
      "vp_height (mutableViewport t') = vp_height (mutableViewport t)"
      "vp_top (mutableViewport t') \<le> 32767"
      "scrollOffset t' = scrollOffset t" "snapOnInput t' = snapOnInput t"
      using AdjustCursorPosition_ok [of "\<lparr>X = X ?p + int k, Y = Y ?p\<rparr>" "t\<lparr>buffer := b'\<rparr>"]
        yshort(1) bounds(9,10,11) by auto
    have "WriteBuffer_body cw sv i t = Inr (i + n, t')"
      using WriteBuffer_body_pos [OF w True] by (simp add: nk wk t'(1))
    moreover have "Terminal_ok t'"
      using bounds kb t' fr by (simp add: Terminal_ok_def min_def)
    ultimately show ?thesis
      using t' fr le True by (simp add: n)
  next
    case False
    then have n0: "n = 0" by simp
    have wy: "wrap_short (Y ?p + 1) = Y ?p + 1"
      using yshort(2) by (rule wrap_short_id)
    let ?t1 = "t\<lparr>buffer := SetWrapForced (Y ?p) True ?b\<rparr>"
    obtain t' where t': "AdjustCursorPosition \<lparr>X = 0, Y = Y ?p + 1\<rparr> ?t1 = Inr t'"
      "bufWidth (buffer t') = bufWidth ?b" "length (rows (buffer t')) = length (rows ?b)"
      "GetPosition (buffer t') = \<lparr>X = 0, Y = min (Y ?p + 1) (int (length (rows ?b)) - 1)\<rparr>"
      "vp_height (mutableViewport t') = vp_height (mutableViewport t)"
      "vp_top (mutableViewport t') \<le> 32767"
      "scrollOffset t' = scrollOffset t" "snapOnInput t' = snapOnInput t"
      using AdjustCursorPosition_ok [of "\<lparr>X = 0, Y = Y ?p + 1\<rparr>" ?t1]
        yshort(2) bounds(9,10,11) by auto
    have "WriteBuffer_body cw sv i t = Inr (i, t')"
      using WriteBuffer_body_zero [of cw sv i t] n n0 by (simp add: wy t'(1))
    moreover have "Terminal_ok t'"
      using bounds t' by (simp add: Terminal_ok_def min_def)
    ultimately show ?thesis
      using t' le n0 by (simp add: n)
  qed
qed


lemma WriteBuffer_loop_invariant:
  "Terminal_ok t \<Longrightarrow> WriteBuffer_loop cw fuel sv i t = Some (Inr t') \<Longrightarrow>
   Terminal_ok t' \<and> bufWidth (buffer t') = bufWidth (buffer t) \<and>
   length (rows (buffer t')) = length (rows (buffer t)) \<and>
   scrollOffset t' = scrollOffset t \<and> snapOnInput t' = snapOnInput t"
proof (induction fuel arbitrary: i t)
  case 0
  then show ?case by (simp split: if_splits)
next
  case (Suc fuel)
  show ?case
  proof (cases "i < length sv")
    case True
    from WriteBuffer_body_ok [OF Suc.prems(1) True, of cw] obtain t1 where t1:
      "WriteBuffer_body cw sv i t = Inr (i + inputDistance_at cw sv i t, t1)" "Terminal_ok t1"
      "bufWidth (buffer t1) = bufWidth (buffer t)"
      "length (rows (buffer t1)) = length (rows (buffer t))"
      "scrollOffset t1 = scrollOffset t" "snapOnInput t1 = snapOnInput t"
      by blast
    from Suc.prems(2) True t1(1)
    have "WriteBuffer_loop cw fuel sv (i + inputDistance_at cw sv i t) t1 = Some (Inr t')"
      by simp
    from Suc.IH [OF t1(2) this] t1 show ?thesis by simp
  next
    case False
    with Suc.prems show ?thesis by simp
  qed
qed


lemma StartDeferDrawing_frame [simp]:
  "GetPosition (StartDeferDrawing b) = GetPosition b"
  "bufWidth (StartDeferDrawing b) = bufWidth b"
  "rows (StartDeferDrawing b) = rows b"
  by (simp_all add: StartDeferDrawing_def GetPosition_def)

lemma EndDeferDrawing_frame [simp]:
  "GetPosition (EndDeferDrawing b) = GetPosition b"
  "bufWidth (EndDeferDrawing b) = bufWidth b"
  "rows (EndDeferDrawing b) = rows b"
  by (simp_all add: EndDeferDrawing_def GetPosition_def)

lemma Terminal_ok_StartDeferDrawing:
  "Terminal_ok (t\<lparr>buffer := StartDeferDrawing (buffer t)\<rparr>) = Terminal_ok t"
  by (simp add: Terminal_ok_def)

lemma Terminal_ok_EndDeferDrawing:
  "Terminal_ok (t\<lparr>buffer := EndDeferDrawing (buffer t)\<rparr>) = Terminal_ok t"
  by (simp add: Terminal_ok_def)


lemma WriteBuffer_invariant:
  assumes "Terminal_ok t" and "WriteBuffer cw fuel sv t = Some (Inr t')"
  shows "Terminal_ok t' \<and> bufWidth (buffer t') = bufWidth (buffer t) \<and>
   length (rows (buffer t')) = length (rows (buffer t)) \<and>
   scrollOffset t' = scrollOffset t \<and> snapOnInput t' = snapOnInput t"
proof -
  let ?t = "t\<lparr>buffer := StartDeferDrawing (buffer t)\<rparr>"
  from assms(2) obtain t1 where t1: "WriteBuffer_loop cw fuel sv 0 ?t = Some (Inr t1)"
    "t' = t1\<lparr>buffer := EndDeferDrawing (buffer t1)\<rparr>"
    by (auto simp: WriteBuffer_def split: option.splits sum.splits)
  from WriteBuffer_loop_invariant [OF _ t1(1)] assms(1)
  have "Terminal_ok t1 \<and> bufWidth (buffer t1) = bufWidth (buffer ?t) \<and>
     length (rows (buffer t1)) = length (rows (buffer ?t)) \<and>
     scrollOffset t1 = scrollOffset ?t \<and> snapOnInput t1 = snapOnInput ?t"
    by (simp add: Terminal_ok_StartDeferDrawing)
  then show ?thesis
    by (simp add: t1(2) Terminal_ok_EndDeferDrawing)
qed

lemma returnedE: "returned r \<Longrightarrow> \<exists>t'. r = Some (Inr t')"
  by (auto simp: returned_def split: option.splits sum.splits)

lemma Terminal_ok_cursor: "Terminal_ok t \<Longrightarrow> cursor_in_buffer t"
  by (simp add: Terminal_ok_def cursor_in_buffer_def)

lemma Create_Terminal_ok:
  "1 \<le> X viewportSize \<and> X viewportSize \<le> 32767 \<and> 1 \<le> Y viewportSize \<Longrightarrow>
   Terminal_ok (Create viewportSize scrollback)"
  by (auto simp: Terminal_ok_def Create_def TextBuffer_new_def GetPosition_def
      ClampToShortMax_def FromDimensions_def)

lemma WriteBuffer_seq_invariant:
  "Terminal_ok t \<Longrightarrow> WriteBuffer_seq cw fuel svs t = Some (Inr t') \<Longrightarrow> Terminal_ok t'"
proof (induction svs arbitrary: t)
  case Nil
  then show ?case by simp
next
  case (Cons sv svs)
  from Cons.prems(2) obtain t1 where t1: "WriteBuffer cw fuel sv t = Some (Inr t1)"
    "WriteBuffer_seq cw fuel svs t1 = Some (Inr t')"
    by (auto split: option.splits sum.splits)
  from WriteBuffer_invariant [OF Cons.prems(1) t1(1)] have "Terminal_ok t1" by simp
  from Cons.IH [OF this t1(2)] show ?case .
qed




text \<open>
  C3, amended. Starting from a terminal whose buffer has between 1 and 32767 columns and rows,
  whose cursor column lies in \<open>[0, width]\<close> and cursor row in \<open>[0, bufferHeight)\<close>,
  whose viewport has a positive height and a top of at most 32767, and whose scroll offset is
  not negative: every round of \<open>_WriteBuffer\<close> returns from
  \<open>_AdjustCursorPosition\<close> with the cursor column in \<open>[0, width]\<close> and the cursor row in
  \<open>[0, bufferHeight)\<close>, and so does every sequence of \<open>_WriteBuffer\<close> calls that returns;
  \<open>Create\<close> with a width in \<open>[1, 32767]\<close> and a positive height gives such a terminal.
  The column bound is inclusive: after the last column of a row is written the cursor stands
  at column \<open>width\<close> until the next write wraps.
\<close>

theorem cursor_stays_in_buffer:
  assumes "Terminal_ok t"
  shows "(i < length sv \<longrightarrow>
      (\<exists>t'. WriteBuffer_body cw sv i t = Inr (i + inputDistance_at cw sv i t, t') \<and>
         Terminal_ok t' \<and> cursor_in_buffer t')) \<and>
    (WriteBuffer_seq cw fuel svs t = Some (Inr t2) \<longrightarrow> Terminal_ok t2 \<and> cursor_in_buffer t2) \<and>
    (1 \<le> X viewportSize \<and> X viewportSize \<le> 32767 \<and> 1 \<le> Y viewportSize \<longrightarrow>
       Terminal_ok (Create viewportSize scrollback))"
proof (intro conjI impI)
  assume "i < length sv"
  from WriteBuffer_body_ok [OF assms this, of cw]
  show "\<exists>t'. WriteBuffer_body cw sv i t = Inr (i + inputDistance_at cw sv i t, t') \<and>
         Terminal_ok t' \<and> cursor_in_buffer t'"
    using Terminal_ok_cursor by blast
next
  assume "WriteBuffer_seq cw fuel svs t = Some (Inr t2)"
  from WriteBuffer_seq_invariant [OF assms this] show "Terminal_ok t2" .
  then show "cursor_in_buffer t2" by (rule Terminal_ok_cursor)
next
  assume "1 \<le> X viewportSize \<and> X viewportSize \<le> 32767 \<and> 1 \<le> Y viewportSize"
  then show "Terminal_ok (Create viewportSize scrollback)"
    by (rule Create_Terminal_ok)
qed

theorem cursor_stays_in_buffer_witness:
  "Terminal_ok example_terminal \<and>
   (\<exists>t'. WriteBuffer_body single_cell [0x61] 0 example_terminal = Inr (1, t') \<and>
      cursor_in_buffer t') \<and>
   (\<exists>t2. WriteBuffer_seq single_cell 4 [ [0x61, 0x62], [0x63] ] example_terminal = Some (Inr t2) \<and>
      cursor_in_buffer t2)"
proof -
  have h: "Terminal_ok example_terminal" by code_simp
  have n: "inputDistance_at single_cell [0x61] 0 example_terminal = 1" by code_simp
  have "returned (WriteBuffer_seq single_cell 4 [ [0x61, 0x62], [0x63] ] example_terminal)"
    by code_simp
  then obtain t2 where
    t2: "WriteBuffer_seq single_cell 4 [ [0x61, 0x62], [0x63] ] example_terminal = Some (Inr t2)"
    using returnedE by blast
  from cursor_stays_in_buffer [OF h, where i = 0 and sv = "[0x61]" and cw = single_cell
      and fuel = 4 and svs = "[ [0x61, 0x62], [0x63] ]" and ?t2.0 = t2]
    h n t2
  show ?thesis by auto
qed

text \<open>
  The specification asks for a column below the width. After a write of two characters into
  an empty row of two columns the cursor stands at column 2, the width.
\<close>

theorem cursor_column_reaches_width:
  "map_option (map_sum id (GetPosition \<circ> buffer))
     (WriteBuffer single_cell 4 [0x61, 0x62] example_terminal) = Some (Inr \<lparr>X = 2, Y = 0\<rparr>) \<and>
   map_option (map_sum id (bufWidth \<circ> buffer))
     (WriteBuffer single_cell 4 [0x61, 0x62] example_terminal) = Some (Inr 2) \<and>
   map_option (map_sum id cursor_in_claimed_range)
     (WriteBuffer single_cell 4 [0x61, 0x62] example_terminal) = Some (Inr False)"
  by code_simp

section \<open>Surrogate pairs\<close>







lemma fill_cells_length [simp]: "length (fill_cells cs c k v) = length cs"
  by (induction k arbitrary: cs c) simp_all




lemma with_unit_frame [simp]:
  "cursor (with_unit u k b) = cursor b"
  "bufWidth (with_unit u k b) = bufWidth b"
  "length (rows (with_unit u k b)) = length (rows b)"
  by (simp_all add: with_unit_def)






section \<open>Snap on input\<close>

lemma WriteBuffer_body_frame:
  "WriteBuffer_body cw sv i t = Inr (i', t') \<Longrightarrow>
   scrollOffset t' = scrollOffset t \<and> snapOnInput t' = snapOnInput t"
  by (auto simp: WriteBuffer_body_def Let_def split: if_splits sum.splits prod.splits
      dest!: AdjustCursorPosition_frame)

lemma WriteBuffer_loop_frame:
  "WriteBuffer_loop cw fuel sv i t = Some (Inr t') \<Longrightarrow>
   scrollOffset t' = scrollOffset t \<and> snapOnInput t' = snapOnInput t"
proof (induction fuel arbitrary: i t)
  case 0
  then show ?case by (simp split: if_splits)
next
  case (Suc fuel)
  show ?case
  proof (cases "i < length sv")
    case False
    with Suc.prems show ?thesis by simp
  next
    case True
    with Suc.prems obtain i1 t1 where
      b: "WriteBuffer_body cw sv i t = Inr (i1, t1)" and
      l: "WriteBuffer_loop cw fuel sv i1 t1 = Some (Inr t')"
      by (auto split: sum.splits)
    from Suc.IH [OF l] WriteBuffer_body_frame [OF b] show ?thesis by simp
  qed
qed

lemma WriteBuffer_frame:
  "WriteBuffer cw fuel sv t = Some (Inr t') \<Longrightarrow>
   scrollOffset t' = scrollOffset t \<and> snapOnInput t' = snapOnInput t"
  by (auto simp: WriteBuffer_def split: option.splits sum.splits dest!: WriteBuffer_loop_frame)

lemma run_dispatch_frame:
  "run_dispatch cw fuel ds t = Some (Inr t') \<Longrightarrow>
   scrollOffset t' = scrollOffset t \<and> snapOnInput t' = snapOnInput t"
proof (induction cw fuel ds t rule: run_dispatch.induct)
  case (1 cw fuel t)
  then show ?case by simp
next
  case (2 cw fuel sv ds t)
  from "2.prems" obtain t1 where
    w: "WriteBuffer cw fuel sv t = Some (Inr t1)" and
    r: "run_dispatch cw fuel ds t1 = Some (Inr t')"
    by (auto split: option.splits sum.splits)
  from "2.IH" [OF w refl r] WriteBuffer_frame [OF w] show ?case by simp
next
  case (3 cw fuel p ds t)
  from "3.prems" obtain t1 where
    a: "AdjustCursorPosition p t = Inr t1" and
    r: "run_dispatch cw fuel ds t1 = Some (Inr t')"
    by (auto split: sum.splits)
  from "3.IH" [OF a r] AdjustCursorPosition_frame [OF a] show ?case by simp
qed

lemma Write_frame:
  "Write ProcessString cw fuel sv t = Some (Inr t') \<Longrightarrow>
   scrollOffset t' = scrollOffset t \<and> snapOnInput t' = snapOnInput t"
  by (auto simp: Write_def LockForWriting_def unlock_def split: option.splits sum.splits
      dest!: run_dispatch_frame)

text \<open>
  The specification has every \<open>Write\<close> snap the view back. \<open>Write\<close> does not call
  \<open>TrySnapOnInput\<close>: with snap-on-input on and the view scrolled back by three rows, a
  write returns with the scroll offset still 3, and between taking and releasing the lock it
  makes no notification.
\<close>

theorem Write_does_not_snap:
  "snapOnInput scrolled_back_terminal \<and> scrollOffset scrolled_back_terminal = 3 \<and>
   map_option (map_sum id scrollOffset)
     (Write print_text single_cell 2 [0x6A] scrolled_back_terminal) = Some (Inr 3) \<and>
   map_option (map_sum id events)
     (Write print_text single_cell 2 [0x6A] scrolled_back_terminal) =
     Some (Inr (events scrolled_back_terminal @ [LockedForWriting, Unlocked]))"
  by code_simp

text \<open>
  C5, amended. For every call of \<open>TrySnapOnInput\<close> (the key-event entry point makes it
  first; \<open>Write\<close> does not make it) while snap-on-input is enabled and the scroll offset is
  not zero, in a terminal whose viewport top is at most 32767: the call returns, the scroll
  offset becomes 0 and, under the write lock, the registered scroll callback is invoked exactly
  once, with the top of the mutable viewport as visible top, the viewport height and
  \<open>GetBufferHeight()\<close>; nothing else changes. Otherwise the call changes nothing. Every
  \<open>Write\<close> call that returns leaves the scroll offset and the snap-on-input setting as they
  were.
\<close>

theorem TrySnapOnInput_snaps:
  assumes "vp_top (mutableViewport t) \<le> 32767"
  shows "(snapOnInput t \<and> scrollOffset t \<noteq> 0 \<longrightarrow>
      (\<exists>t'. TrySnapOnInput t = Inr t' \<and>
         scrollOffset t' = 0 \<and>
         events t' = events t @ [LockedForWriting] @ scroll_events t' @ [Unlocked] \<and>
         (pfnScrollPositionChanged t \<longrightarrow>
            events t' = events t @
              [LockedForWriting,
               ScrollPositionChanged (max 0 (vp_top (mutableViewport t)))
                 (vp_height (mutableViewport t))
                 (wrap_short (vp_top (mutableViewport t) + vp_height (mutableViewport t))),
               Unlocked]) \<and>
         (\<not> pfnScrollPositionChanged t \<longrightarrow>
            events t' = events t @ [LockedForWriting, Unlocked]) \<and>
         buffer t' = buffer t \<and> mutableViewport t' = mutableViewport t \<and>
         snapOnInput t' = snapOnInput t)) \<and>
    (\<not> (snapOnInput t \<and> scrollOffset t \<noteq> 0) \<longrightarrow> TrySnapOnInput t = Inr t) \<and>
    (\<forall>t2. Write ProcessString cw fuel sv t = Some (Inr t2) \<longrightarrow>
       scrollOffset t2 = scrollOffset t \<and> snapOnInput t2 = snapOnInput t)"
proof (intro conjI impI allI)
  assume a: "snapOnInput t \<and> scrollOffset t \<noteq> 0"
  let ?t = "(LockForWriting t)\<lparr>scrollOffset := 0\<rparr>"
  have "vp_top (mutableViewport ?t) \<le> 32767" "0 \<le> scrollOffset ?t"
    using assms by (simp_all add: LockForWriting_def)
  then have n: "NotifyScrollEvent ?t = Inr (?t\<lparr>events := events ?t @ scroll_events ?t\<rparr>)"
    by (rule NotifyScrollEvent_events)
  have r: "TrySnapOnInput t = Inr (unlock (?t\<lparr>events := events ?t @ scroll_events ?t\<rparr>))"
    using a by (simp add: TrySnapOnInput_def n)
  have se: "scroll_events (unlock (?t\<lparr>events := events ?t @ scroll_events ?t\<rparr>)) =
      scroll_events ?t"
    by (rule scroll_events_cong) (simp_all add: unlock_def)
  show "\<exists>t'. TrySnapOnInput t = Inr t' \<and>
         scrollOffset t' = 0 \<and>
         events t' = events t @ [LockedForWriting] @ scroll_events t' @ [Unlocked] \<and>
         (pfnScrollPositionChanged t \<longrightarrow>
            events t' = events t @
              [LockedForWriting,
               ScrollPositionChanged (max 0 (vp_top (mutableViewport t)))
                 (vp_height (mutableViewport t))
                 (wrap_short (vp_top (mutableViewport t) + vp_height (mutableViewport t))),
               Unlocked]) \<and>
         (\<not> pfnScrollPositionChanged t \<longrightarrow>
            events t' = events t @ [LockedForWriting, Unlocked]) \<and>
         buffer t' = buffer t \<and> mutableViewport t' = mutableViewport t \<and>
         snapOnInput t' = snapOnInput t"
    unfolding r
    by (intro exI [of _ "unlock (?t\<lparr>events := events ?t @ scroll_events ?t\<rparr>)"])
      (simp add: se, simp add: unlock_def LockForWriting_def scroll_events_def
        VisibleStartIndex_def ViewStartIndex_def Top_def GetBufferHeight_def BottomExclusive_def)
next
  assume "\<not> (snapOnInput t \<and> scrollOffset t \<noteq> 0)"
  then show "TrySnapOnInput t = Inr t" by (auto simp: TrySnapOnInput_def)
next
  fix t2
  assume "Write ProcessString cw fuel sv t = Some (Inr t2)"
  then have "scrollOffset t2 = scrollOffset t \<and> snapOnInput t2 = snapOnInput t"
    by (rule Write_frame)
  then show "scrollOffset t2 = scrollOffset t" "snapOnInput t2 = snapOnInput t" by simp_all
qed

theorem TrySnapOnInput_snaps_witness:
  "vp_top (mutableViewport scrolled_back_terminal) \<le> 32767 \<and>
   snapOnInput scrolled_back_terminal \<and> scrollOffset scrolled_back_terminal \<noteq> 0 \<and>
   pfnScrollPositionChanged scrolled_back_terminal \<and>
   (\<exists>t'. TrySnapOnInput scrolled_back_terminal = Inr t' \<and> scrollOffset t' = 0 \<and>
      events t' = events scrolled_back_terminal @
        [LockedForWriting, ScrollPositionChanged 3 2 5, Unlocked]) \<and>
   (\<exists>t2. Write print_text single_cell 2 [0x6A] scrolled_back_terminal = Some (Inr t2) \<and>
      scrollOffset t2 = scrollOffset scrolled_back_terminal)"
proof -
  let ?t = scrolled_back_terminal
  have h: "vp_top (mutableViewport ?t) \<le> 32767" by code_simp
  have e: "snapOnInput ?t" "scrollOffset ?t \<noteq> 0" "pfnScrollPositionChanged ?t"
    "vp_top (mutableViewport ?t) = 3" "vp_height (mutableViewport ?t) = 2"
    "wrap_short 5 = 5"
    by code_simp+
  have w: "returned (Write print_text single_cell 2 [0x6A] ?t)" by code_simp
  then obtain t2 where w2: "Write print_text single_cell 2 [0x6A] ?t = Some (Inr t2)"
    by (auto dest: returnedE)
  note T = TrySnapOnInput_snaps [where t = ?t and ProcessString = print_text and
      cw = single_cell and fuel = 2 and sv = "[0x6A]", OF h]
  from T e(1,2,3) obtain t' where
    "TrySnapOnInput ?t = Inr t'" "scrollOffset t' = 0"
    "events t' = events ?t @
       [LockedForWriting,
        ScrollPositionChanged (max 0 (vp_top (mutableViewport ?t)))
          (vp_height (mutableViewport ?t))
          (wrap_short (vp_top (mutableViewport ?t) + vp_height (mutableViewport ?t))),
        Unlocked]"
    by blast
  then have a: "\<exists>t'. TrySnapOnInput ?t = Inr t' \<and> scrollOffset t' = 0 \<and>
      events t' = events ?t @ [LockedForWriting, ScrollPositionChanged 3 2 5, Unlocked]"
    by (simp add: e)
  from T w2 have "scrollOffset t2 = scrollOffset ?t" by blast
  with w2 have b: "\<exists>t2. Write print_text single_cell 2 [0x6A] ?t = Some (Inr t2) \<and>
      scrollOffset t2 = scrollOffset ?t" by blast
  from h e(1,2,3) a b show ?thesis by blast
qed

section \<open>Scroll notification\<close>

text \<open>
  The specification names the viewport height plus the scrollback capacity as third
  argument. In a terminal of 2 visible rows and 3 rows of scrollback (5 buffer rows), the
  notification that follows the first scroll of the viewport carries 3.
\<close>

theorem scroll_notification_is_not_capacity:
  "map_option (map_sum id events)
     (WriteBuffer single_cell 10 [0x61, 0x62, 0x63, 0x64, 0x65] example_terminal) =
     Some (Inr [RedrawAll, ScrollPositionChanged 1 2 3]) \<and>
   vp_height (mutableViewport example_terminal) + scrollbackLines example_terminal = 5 \<and>
   length (rows (buffer example_terminal)) = 5"
  by code_simp

text \<open>
  C8, amended. Every scroll-position-changed notification (all are made by
  \<open>_NotifyScrollEvent\<close>, which makes one when a callback is registered and the first visible
  row is a \<open>short\<close>, and ends the program when the row is not a \<open>short\<close>) passes as its
  third argument \<open>GetBufferHeight()\<close>, the exclusive bottom of the mutable viewport as a
  \<open>short\<close>: the top of the mutable viewport (the rows of scrollback in use) plus the viewport
  height, wrapped to 16 bits.
\<close>

theorem NotifyScrollEvent_third_argument:
  "NotifyScrollEvent t =
     (if pfnScrollPositionChanged t
      then (if in_short (VisibleStartIndex t)
            then Inr (t\<lparr>events := events t @
                     [ScrollPositionChanged (VisibleStartIndex t) (vp_height (mutableViewport t))
                        (GetBufferHeight t)]\<rparr>)
            else Inl std_terminate)
      else Inr t) \<and>
   GetBufferHeight t = wrap_short (vp_top (mutableViewport t) + vp_height (mutableViewport t)) \<and>
   (in_short (vp_top (mutableViewport t) + vp_height (mutableViewport t)) \<longrightarrow>
      GetBufferHeight t = vp_top (mutableViewport t) + vp_height (mutableViewport t))"
  by (simp add: NotifyScrollEvent_def GetVisibleViewport_def narrow_short_def Top_def Height_def
      FromDimensions_def Dimensions_def GetBufferHeight_def BottomExclusive_def wrap_short_id)

theorem NotifyScrollEvent_third_argument_witness:
  "pfnScrollPositionChanged scrolled_back_terminal \<and>
   in_short (VisibleStartIndex scrolled_back_terminal) \<and>
   in_short (vp_top (mutableViewport scrolled_back_terminal) +
             vp_height (mutableViewport scrolled_back_terminal)) \<and>
   GetBufferHeight scrolled_back_terminal = 5 \<and>
   NotifyScrollEvent scrolled_back_terminal =
     Inr (scrolled_back_terminal\<lparr>events := events scrolled_back_terminal @
            [ScrollPositionChanged 0 2 5]\<rparr>)"
proof -
  let ?t = scrolled_back_terminal
  have e: "pfnScrollPositionChanged ?t"
    "in_short (VisibleStartIndex ?t)"
    "in_short (vp_top (mutableViewport ?t) + vp_height (mutableViewport ?t))"
    "VisibleStartIndex ?t = 0"
    "vp_top (mutableViewport ?t) = 3"
    "vp_height (mutableViewport ?t) = 2"
    by code_simp+
  from NotifyScrollEvent_third_argument [of ?t] e(1,2,3)
  have "NotifyScrollEvent ?t = Inr (?t\<lparr>events := events ?t @
      [ScrollPositionChanged (VisibleStartIndex ?t) (vp_height (mutableViewport ?t))
         (GetBufferHeight ?t)]\<rparr>)"
    and "GetBufferHeight ?t = vp_top (mutableViewport ?t) + vp_height (mutableViewport ?t)"
    by simp_all
  with e show ?thesis by simp
qed

section \<open>Resize outcomes\<close>

lemma FAILED_simps [simp]:
  "FAILED (failure c)" "\<not> FAILED S_OK" "\<not> FAILED S_FALSE"
  by (simp_all add: FAILED_def)

lemma UserResize_same:
  "vs = Dimensions (mutableViewport t) \<Longrightarrow> UserResize mk rf vs t = Inr (S_FALSE, t)"
  by (simp add: UserResize_def)

lemma UserResize_alloc_fails:
  "vs \<noteq> Dimensions (mutableViewport t) \<Longrightarrow>
   mk (resize_bufferSize vs t) (GetCurrentAttributes (buffer t)) = Inl c \<Longrightarrow>
   UserResize mk rf vs t = Inr (failure c, t)"
  by (simp add: UserResize_def resize_bufferSize_def Let_def)

lemma UserResize_reflow:
  "vs \<noteq> Dimensions (mutableViewport t) \<Longrightarrow>
   mk (resize_bufferSize vs t) (GetCurrentAttributes (buffer t)) = Inr nb \<Longrightarrow>
   rf (buffer t) nb (mutableViewport t) (resize_depth_in t) = (hr, nb', depth) \<Longrightarrow>
   UserResize mk rf vs t =
     (if FAILED hr then Inr (hr, t)
      else (case NotifyScrollEvent
              (t\<lparr>mutableViewport :=
                    FromDimensions \<lparr>X = 0, Y = saturated_cast_short (depth + 1)\<rparr> vs,
                  buffer := nb', scrollOffset := 0\<rparr>) of
              Inl e \<Rightarrow> Inl e
            | Inr t' \<Rightarrow> Inr (S_OK, t')))"
  by (simp add: UserResize_def resize_bufferSize_def resize_depth_in_def Let_def)

lemma UserResize_reflow_status:
  assumes "vs \<noteq> Dimensions (mutableViewport t)"
    and "mk (resize_bufferSize vs t) (GetCurrentAttributes (buffer t)) = Inr nb"
    and "rf (buffer t) nb (mutableViewport t) (resize_depth_in t) = (hr, nb', depth)"
  shows "(FAILED hr \<and> UserResize mk rf vs t = Inr (hr, t)) \<or>
    (\<exists>e. UserResize mk rf vs t = Inl e) \<or>
    (\<exists>t'. UserResize mk rf vs t = Inr (S_OK, t'))"
  unfolding UserResize_reflow [where mk = mk and rf = rf, OF assms]
  by (simp split: sum.splits)



text \<open>
  C7. \<open>UserResize\<close> returns \<open>S_FALSE\<close> exactly when the requested size equals the
  dimensions of the mutable viewport, and then the terminal is unchanged; when the
  construction of the new buffer fails, or when the reflow fails, it returns that failure
  status (which is neither \<open>S_OK\<close> nor \<open>S_FALSE\<close>) and the terminal is unchanged.
\<close>

theorem UserResize_noop_and_failure:
  "((\<exists>t'. UserResize mk rf vs t = Inr (S_FALSE, t')) \<longleftrightarrow> vs = Dimensions (mutableViewport t)) \<and>
   (vs = Dimensions (mutableViewport t) \<longrightarrow> UserResize mk rf vs t = Inr (S_FALSE, t)) \<and>
   (vs \<noteq> Dimensions (mutableViewport t) \<and>
    mk (resize_bufferSize vs t) (GetCurrentAttributes (buffer t)) = Inl c \<longrightarrow>
      UserResize mk rf vs t = Inr (failure c, t) \<and> FAILED (failure c) \<and>
      (\<exists>hr. UserResize mk rf vs t = Inr (hr, t) \<and> FAILED hr)) \<and>
   (vs \<noteq> Dimensions (mutableViewport t) \<and>
    mk (resize_bufferSize vs t) (GetCurrentAttributes (buffer t)) = Inr nb \<and>
    FAILED (fst (rf (buffer t) nb (mutableViewport t) (resize_depth_in t))) \<longrightarrow>
      UserResize mk rf vs t =
        Inr (fst (rf (buffer t) nb (mutableViewport t) (resize_depth_in t)), t) \<and>
      (\<exists>hr. UserResize mk rf vs t = Inr (hr, t) \<and> FAILED hr))"
proof (intro conjI impI)
  show "(\<exists>t'. UserResize mk rf vs t = Inr (S_FALSE, t')) \<longleftrightarrow> vs = Dimensions (mutableViewport t)"
  proof (cases "vs = Dimensions (mutableViewport t)")
    case True
    then show ?thesis by (simp add: UserResize_same)
  next
    case False
    show ?thesis
    proof (cases "mk (resize_bufferSize vs t) (GetCurrentAttributes (buffer t))")
      case (Inl c)
      with False show ?thesis by (simp add: UserResize_alloc_fails)
    next
      case (Inr nb)
      obtain hr nb' depth where
        r: "rf (buffer t) nb (mutableViewport t) (resize_depth_in t) = (hr, nb', depth)"
        by (metis prod_cases3)
      from UserResize_reflow_status [where mk = mk and rf = rf, OF False Inr r] False
      show ?thesis by auto
    qed
  qed
next
  assume "vs = Dimensions (mutableViewport t)"
  then show "UserResize mk rf vs t = Inr (S_FALSE, t)" by (rule UserResize_same)
next
  assume a: "vs \<noteq> Dimensions (mutableViewport t) \<and>
    mk (resize_bufferSize vs t) (GetCurrentAttributes (buffer t)) = Inl c"
  then show r: "UserResize mk rf vs t = Inr (failure c, t)" by (simp add: UserResize_alloc_fails)
  show "FAILED (failure c)" by simp
  from r show "\<exists>hr. UserResize mk rf vs t = Inr (hr, t) \<and> FAILED hr" by simp
next
  assume a: "vs \<noteq> Dimensions (mutableViewport t) \<and>
    mk (resize_bufferSize vs t) (GetCurrentAttributes (buffer t)) = Inr nb \<and>
    FAILED (fst (rf (buffer t) nb (mutableViewport t) (resize_depth_in t)))"
  obtain hr nb' depth where
    r: "rf (buffer t) nb (mutableViewport t) (resize_depth_in t) = (hr, nb', depth)"
    by (metis prod_cases3)
  with a show u:
    "UserResize mk rf vs t =
       Inr (fst (rf (buffer t) nb (mutableViewport t) (resize_depth_in t)), t)"
    by (simp add: UserResize_reflow [where mk = mk and rf = rf, OF _ _ r])
  from u a show "\<exists>hr. UserResize mk rf vs t = Inr (hr, t) \<and> FAILED hr" by simp
qed

theorem UserResize_noop_and_failure_witness:
  "UserResize make_blank (reflow_depth 0) \<lparr>X = 2, Y = 2\<rparr> scrolled_back_terminal =
     Inr (S_FALSE, scrolled_back_terminal) \<and>
   UserResize make_fails (reflow_depth 0) \<lparr>X = 3, Y = 2\<rparr> scrolled_back_terminal =
     Inr (failure 14, scrolled_back_terminal) \<and>
   UserResize make_blank reflow_fails \<lparr>X = 3, Y = 2\<rparr> scrolled_back_terminal =
     Inr (failure 5, scrolled_back_terminal)"
proof -
  let ?t = scrolled_back_terminal
  have d: "Dimensions (mutableViewport ?t) = \<lparr>X = 2, Y = 2\<rparr>" by code_simp
  have a: "UserResize make_blank (reflow_depth 0) \<lparr>X = 2, Y = 2\<rparr> ?t = Inr (S_FALSE, ?t)"
    using UserResize_noop_and_failure
      [where mk = make_blank and rf = "reflow_depth 0" and vs = "\<lparr>X = 2, Y = 2\<rparr>" and t = ?t]
    by (simp add: d)
  have b: "UserResize make_fails (reflow_depth 0) \<lparr>X = 3, Y = 2\<rparr> ?t = Inr (failure 14, ?t)"
    using UserResize_noop_and_failure
      [where mk = make_fails and rf = "reflow_depth 0" and vs = "\<lparr>X = 3, Y = 2\<rparr>" and t = ?t
        and c = 14]
    by (simp add: d make_fails_def)
  have c: "UserResize make_blank reflow_fails \<lparr>X = 3, Y = 2\<rparr> ?t = Inr (failure 5, ?t)"
    using UserResize_noop_and_failure
      [where mk = make_blank and rf = reflow_fails and vs = "\<lparr>X = 3, Y = 2\<rparr>" and t = ?t
        and nb = "TextBuffer_new (resize_bufferSize \<lparr>X = 3, Y = 2\<rparr> ?t)
                    (GetCurrentAttributes (buffer ?t))"]
    by (simp add: d make_blank_def reflow_fails_def)
  from a b c show ?thesis by simp
qed

text \<open>
  C6. After a resize to a size different from the current one, whose buffer construction and
  reflow succeed, with the reflow leaving a scrollback depth that is a \<open>short\<close> below
  32767 (the source saturates \<open>depth + 1\<close> to a \<open>short\<close>): the call returns \<open>S_OK\<close>, the
  mutable viewport has the requested width and height and its top is the depth plus 1, the
  buffer is the reflowed one, the scroll offset is 0, and the scroll callback, when one is
  registered, has been invoked once, with the visible top, the requested height and
  \<open>GetBufferHeight()\<close>.
\<close>

theorem UserResize_success:
  assumes "vs \<noteq> Dimensions (mutableViewport t)"
    and "mk (resize_bufferSize vs t) (GetCurrentAttributes (buffer t)) = Inr nb"
    and "rf (buffer t) nb (mutableViewport t) (resize_depth_in t) = (hr, nb', depth)"
    and "\<not> FAILED hr"
    and "in_short depth" and "depth < 32767"
  shows "\<exists>t'. UserResize mk rf vs t = Inr (S_OK, t') \<and>
      vp_width (mutableViewport t') = X vs \<and> vp_height (mutableViewport t') = Y vs \<and>
      vp_top (mutableViewport t') = depth + 1 \<and>
      buffer t' = nb' \<and> scrollOffset t' = 0 \<and>
      events t' = events t @ scroll_events t' \<and>
      (pfnScrollPositionChanged t \<longrightarrow>
         events t' = events t @
           [ScrollPositionChanged (max 0 (depth + 1)) (Y vs) (wrap_short (depth + 1 + Y vs))])"
proof -
  let ?t = "t\<lparr>mutableViewport :=
                FromDimensions \<lparr>X = 0, Y = saturated_cast_short (depth + 1)\<rparr> vs,
              buffer := nb', scrollOffset := 0\<rparr>"
  have d: "saturated_cast_short (depth + 1) = depth + 1"
    using assms(5,6) by (simp add: saturated_cast_short_def in_short_def)
  have "vp_top (mutableViewport ?t) \<le> 32767" "0 \<le> scrollOffset ?t"
    using assms(5,6) by (simp_all add: d FromDimensions_def in_short_def)
  then have n: "NotifyScrollEvent ?t = Inr (?t\<lparr>events := events ?t @ scroll_events ?t\<rparr>)"
    by (rule NotifyScrollEvent_events)
  have res: "UserResize mk rf vs t = Inr (S_OK, ?t\<lparr>events := events ?t @ scroll_events ?t\<rparr>)"
    using assms(4)
    by (simp add: UserResize_reflow [where mk = mk and rf = rf, OF assms(1,2,3)] n)
  have se: "scroll_events (?t\<lparr>events := events ?t @ scroll_events ?t\<rparr>) = scroll_events ?t"
    by (rule scroll_events_cong) simp_all
  show ?thesis
    unfolding res
    by (intro exI [of _ "?t\<lparr>events := events ?t @ scroll_events ?t\<rparr>"])
      (simp add: se, simp add: d FromDimensions_def scroll_events_def VisibleStartIndex_def
        ViewStartIndex_def Top_def GetBufferHeight_def BottomExclusive_def)
qed

theorem UserResize_success_witness:
  "\<lparr>X = 3, Y = 2\<rparr> \<noteq> Dimensions (mutableViewport scrolled_back_terminal) \<and>
   \<not> FAILED S_OK \<and> in_short 4 \<and> (4 :: int) < 32767 \<and>
   pfnScrollPositionChanged scrolled_back_terminal \<and>
   (\<exists>t'. UserResize make_blank (reflow_depth 4) \<lparr>X = 3, Y = 2\<rparr> scrolled_back_terminal =
            Inr (S_OK, t') \<and>
      mutableViewport t' = \<lparr>vp_top = 5, vp_width = 3, vp_height = 2\<rparr> \<and>
      scrollOffset t' = 0 \<and>
      events t' = events scrolled_back_terminal @ [ScrollPositionChanged 5 2 7])"
proof -
  let ?vs = "\<lparr>X = 3, Y = 2\<rparr>"
  let ?t = scrolled_back_terminal
  have h1: "?vs \<noteq> Dimensions (mutableViewport ?t)" by code_simp
  have h2: "make_blank (resize_bufferSize ?vs ?t) (GetCurrentAttributes (buffer ?t)) =
      Inr (TextBuffer_new (resize_bufferSize ?vs ?t) (GetCurrentAttributes (buffer ?t)))"
    by (simp add: make_blank_def)
  have h3: "reflow_depth 4 (buffer ?t)
      (TextBuffer_new (resize_bufferSize ?vs ?t) (GetCurrentAttributes (buffer ?t)))
      (mutableViewport ?t) (resize_depth_in ?t) =
      (S_OK, TextBuffer_new (resize_bufferSize ?vs ?t) (GetCurrentAttributes (buffer ?t)), 4)"
    by (simp add: reflow_depth_def)
  have h4: "\<not> FAILED S_OK" "in_short 4" "(4 :: int) < 32767"
    by (simp_all add: in_short_def)
  have p: "pfnScrollPositionChanged ?t" by code_simp
  have w: "wrap_short 7 = 7" by code_simp
  from UserResize_success [where mk = make_blank and rf = "reflow_depth 4", OF h1 h2 h3 h4] p
  obtain t' where
    "UserResize make_blank (reflow_depth 4) ?vs ?t = Inr (S_OK, t')"
    "vp_width (mutableViewport t') = 3" "vp_height (mutableViewport t') = 2"
    "vp_top (mutableViewport t') = 5" "scrollOffset t' = 0"
    "events t' = events ?t @ [ScrollPositionChanged 5 2 7]"
    by (auto simp: w)
  moreover from this have "mutableViewport t' = \<lparr>vp_top = 5, vp_width = 3, vp_height = 2\<rparr>"
    by (cases "mutableViewport t'") simp
  ultimately show ?thesis using h1 h4 p by blast
qed


section \<open>Scroll position queries\<close>

text \<open>
  C10. \<open>GetScrollOffset\<close> returns the first visible row,
  \<open>max(0, mutableViewportTop - scrollOffset)\<close>, for every terminal state, not the
  scroll-offset field; at the live tail (offset 0, top not negative) that is the top of the
  mutable viewport, which \<open>ViewStartIndex\<close> returns as the scrollback length.
\<close>

theorem GetScrollOffset_is_visible_top:
  "GetScrollOffset t = max 0 (vp_top (mutableViewport t) - scrollOffset t) \<and>
   (scrollOffset t = 0 \<and> 0 \<le> vp_top (mutableViewport t) \<longrightarrow>
      GetScrollOffset t = ViewStartIndex t \<and> ViewStartIndex t = vp_top (mutableViewport t))"
  by (simp add: GetScrollOffset_def VisibleStartIndex_def ViewStartIndex_def Top_def)

theorem GetScrollOffset_is_visible_top_witness:
  "scrollOffset (Create \<lparr>X = 80, Y = 24\<rparr> 100\<lparr>mutableViewport :=
      FromDimensions \<lparr>X = 0, Y = 5\<rparr> \<lparr>X = 80, Y = 24\<rparr>\<rparr>) = 0 \<and>
   0 \<le> vp_top (mutableViewport (Create \<lparr>X = 80, Y = 24\<rparr> 100\<lparr>mutableViewport :=
      FromDimensions \<lparr>X = 0, Y = 5\<rparr> \<lparr>X = 80, Y = 24\<rparr>\<rparr>)) \<and>
   GetScrollOffset (Create \<lparr>X = 80, Y = 24\<rparr> 100\<lparr>mutableViewport :=
      FromDimensions \<lparr>X = 0, Y = 5\<rparr> \<lparr>X = 80, Y = 24\<rparr>\<rparr>) = 5"
  using GetScrollOffset_is_visible_top [of "Create \<lparr>X = 80, Y = 24\<rparr> 100\<lparr>mutableViewport :=
      FromDimensions \<lparr>X = 0, Y = 5\<rparr> \<lparr>X = 80, Y = 24\<rparr>\<rparr>"]
  by (simp add: Create_def FromDimensions_def)

end
